theory Spec2Isabelle
  imports Main "HOL-Library.Word" "HOL-Library.Char_ord"
begin

section \<open>The short-link service of main.go\<close>

text \<open>
  A shallow embedding of the request handlers and helper functions of main.go.
  Go strings are byte sequences and so are HOL strings. The link table is a list of rows
  in insertion order together with the next primary key; lookups by code, the insert
  under the unique index on the code, the click update by primary key and the delete by
  code are functions on that table. The table itself is taken to be reliable: a lookup
  either finds a row or reports that there is none, and an insert fails only on the
  unique index. The column clicks is a signed 64-bit integer, as the field Clicks is; an
  update that would take it out of the 64-bit integers ends in an error value and gives
  no table.

  What the handlers get from outside the repository is an explicit input: the functions
  of the Go library whose code is not part of the repository (strings.TrimSpace,
  url.ParseRequestURI, os.Getenv) and the outcomes of the successive calls of
  crypto/rand.Int are fields of an environment record, and the readings of time.Now()
  are arguments. Instants are integers (nanoseconds).
\<close>

subsection \<open>Constants (main.go, lines 44-50 and 318)\<close>

definition DefaultCodeLen :: int where
  "DefaultCodeLen = 6"

definition DomainEnv :: string where
  "DomainEnv = ''SHORT_DOMAIN''"

definition DefaultDomain :: string where
  "DefaultDomain = ''http://localhost:8080''"

definition MaxCustomLength :: nat where
  "MaxCustomLength = 64"

definition alphabet :: string where
  "alphabet = ''0123456789abcdefghijklmnopqrstuvwxyzABCDEFGHIJKLMNOPQRSTUVWXYZ''"

abbreviation StatusOK :: nat where "StatusOK \<equiv> 200"
abbreviation StatusFound :: nat where "StatusFound \<equiv> 302"
abbreviation StatusBadRequest :: nat where "StatusBadRequest \<equiv> 400"
abbreviation StatusNotFound :: nat where "StatusNotFound \<equiv> 404"
abbreviation StatusConflict :: nat where "StatusConflict \<equiv> 409"
abbreviation StatusGone :: nat where "StatusGone \<equiv> 410"
abbreviation StatusInternalServerError :: nat where "StatusInternalServerError \<equiv> 500"

subsection \<open>Data (main.go, lines 53-73)\<close>

type_synonym time = int

text \<open>sql.NullTime: a time and the flag that says whether it is set.\<close>

record NullTime =
  Time :: time
  Valid :: bool

text \<open>The zero value of time.Time (1 January of year 1), in nanoseconds from 1970.\<close>

definition zeroTime :: time where
  "zeroTime = - 62135596800000000000"

definition zeroNullTime :: NullTime where
  "zeroNullTime = \<lparr>Time = zeroTime, Valid = False\<rparr>"

text \<open>
  ShortLink. The field Clicks is an int64: a 64-bit word, read as a signed integer by
  \<open>sint\<close>.
\<close>

record ShortLink =
  ID :: nat
  Code :: string
  TargetURL :: string
  Clicks :: "64 word"
  CreatedAt :: time
  ExpiredAt :: NullTime

text \<open>CreateReq; the field TTL is a Go int, a signed 64-bit integer.\<close>

record CreateReq =
  URL :: string
  Custom :: string
  TTL :: "64 word"

record CreateResp =
  RespCode :: string
  ShortURL :: string
  RespURL :: string

text \<open>The fields of the JSON object that handleInfo answers with.\<close>

record InfoResp =
  InfoCode :: string
  InfoURL :: string
  InfoClicks :: "64 word"
  InfoCreatedAt :: time
  InfoExpiredAt :: NullTime

text \<open>
  The error messages of the handlers, one constructor for each message of main.go, in
  the order of the source.
\<close>

datatype msg =
    BindFailed
  | UrlEmpty
  | UrlInvalid
  | CustomTooLong
  | CustomBadChars
  | CustomExists
  | GenCodeFailed
  | GenCodeConflict
  | SaveFailed
  | CodeInvalid
  | LinkNotFound
  | LinkExpired

datatype body =
    Error msg
  | Created CreateResp
  | Info InfoResp
  | OkTrue

text \<open>
  What a handler does to the connection: c.JSON with a status and a body, c.Redirect with
  a status and a location, or a panic that leaves the handler.
\<close>

datatype response =
    JSON nat body
  | Redirect nat string
  | Panic

subsection \<open>The environment\<close>

datatype parse_error = ParseError
datatype rand_error = RandError

text \<open>The fields of url.URL that a parse fills in.\<close>

record ParsedURL =
  Scheme :: string
  Opaque :: string
  Host :: string
  Path :: string
  RawQuery :: string

record env =
  TrimSpace :: "string \<Rightarrow> string"
  ParseRequestURI :: "string \<Rightarrow> parse_error + ParsedURL"
  Getenv :: "string \<Rightarrow> string"
  rand_Int :: "nat \<Rightarrow> rand_error + nat"

text \<open>
  \<open>rand_Int e k\<close> is the outcome of the \<open>k\<close>-th call of
  rand.Int(rand.Reader, 62) made while the request is served: an error of the reader, or
  the number drawn.
\<close>

subsection \<open>The link table\<close>

record DB =
  rows :: "ShortLink list"
  next_id :: nat

text \<open>
  db.Where("code = ?", code).First(&link): the first row with that code; None is the error
  gorm.ErrRecordNotFound.
\<close>

definition First :: "DB \<Rightarrow> string \<Rightarrow> ShortLink option" where
  "First db c = find (\<lambda>r. Code r = c) (rows db)"

text \<open>
  db.Create(&link): the insert fails on the unique index of the column code; otherwise the
  row is appended under the next primary key.
\<close>

datatype db_error = ErrDuplicatedKey

definition Create :: "DB \<Rightarrow> ShortLink \<Rightarrow> db_error + DB" where
  "Create db link =
     (if list_ex (\<lambda>r. Code r = Code link) (rows db) then Inl ErrDuplicatedKey
      else Inr (db\<lparr>rows := rows db @ [link\<lparr>ID := next_id db\<rparr>],
                    next_id := Suc (next_id db)\<rparr>))"

text \<open>The largest int64, 2^63 - 1.\<close>

definition MaxInt64 :: int where
  "MaxInt64 = 9223372036854775807"

text \<open>
  db.Model(&link).UpdateColumn("clicks", gorm.Expr("clicks + ?", 1)): the update of the
  rows whose primary key is that of link. The table evaluates clicks + 1 on 64-bit
  integers. For a row whose clicks are MaxInt64 the sum is no 64-bit integer: the table
  then stores a floating-point number in the column, which the field Clicks does not
  read back, and such a table is no value of \<open>DB\<close>; the update is then the error
  ClicksOverflow. Otherwise the sum is exact and the rows are updated.
\<close>

datatype update_error = ClicksOverflow

definition UpdateColumn_clicks :: "DB \<Rightarrow> ShortLink \<Rightarrow> update_error + DB" where
  "UpdateColumn_clicks db link =
     (if list_ex (\<lambda>r. ID r = ID link \<and> MaxInt64 < sint (Clicks r) + 1) (rows db)
      then Inl ClicksOverflow
      else Inr (db\<lparr>rows := map (\<lambda>r. if ID r = ID link then r\<lparr>Clicks := Clicks r + 1\<rparr> else r)
                               (rows db)\<rparr>))"

text \<open>db.Where("code = ?", code).Delete(&ShortLink{}): the new table and RowsAffected.\<close>

definition Delete :: "DB \<Rightarrow> string \<Rightarrow> DB \<times> nat" where
  "Delete db c =
     (db\<lparr>rows := filter (\<lambda>r. Code r \<noteq> c) (rows db)\<rparr>,
      length (filter (\<lambda>r. Code r = c) (rows db)))"

text \<open>
  The table's integrity: primary keys are distinct and below the next key, and the unique
  index on the code holds.
\<close>

definition wf_db :: "DB \<Rightarrow> bool" where
  "wf_db db \<longleftrightarrow>
     distinct (map ID (rows db)) \<and> distinct (map Code (rows db)) \<and>
     list_all (\<lambda>r. ID r < next_id db) (rows db)"

subsection \<open>Strings\<close>

text \<open>strings.HasPrefix and strings.Contains on byte strings.\<close>

definition HasPrefix :: "string \<Rightarrow> string \<Rightarrow> bool" where
  "HasPrefix s p \<longleftrightarrow> take (length p) s = p"

fun Contains :: "string \<Rightarrow> string \<Rightarrow> bool" where
  "Contains [] sub = (sub = [])"
| "Contains (c # cs) sub = (HasPrefix (c # cs) sub \<or> Contains cs sub)"

text \<open>strings.TrimRight for a cutset of ASCII characters: the trailing bytes of the cutset go.\<close>

definition TrimRight :: "string \<Rightarrow> string \<Rightarrow> string" where
  "TrimRight s cutset = rev (dropWhile (\<lambda>c. c \<in> set cutset) (rev s))"

subsection \<open>Validation (main.go, lines 295-315)\<close>

definition isValidURL :: "(string \<Rightarrow> parse_error + ParsedURL) \<Rightarrow> string \<Rightarrow> bool" where
  "isValidURL parse u =
     (let u = (if \<not> Contains u ''://'' then ''http://'' @ u else u) in
      case parse u of
        Inl err \<Rightarrow> False
      | Inr parsed \<Rightarrow>
          if Scheme parsed \<noteq> ''http'' \<and> Scheme parsed \<noteq> ''https'' then False else True)"

text \<open>
  The bracket expression [A-Za-z0-9_-] of codeRegexp: three ranges and two single
  characters. A byte outside ASCII is never in it.
\<close>

definition codeClass :: "char \<Rightarrow> bool" where
  "codeClass c \<longleftrightarrow>
     (CHR ''A'' \<le> c \<and> c \<le> CHR ''Z'') \<or> (CHR ''a'' \<le> c \<and> c \<le> CHR ''z'') \<or>
     (CHR ''0'' \<le> c \<and> c \<le> CHR ''9'') \<or> c = CHR ''_'' \<or> c = CHR ''-''"

text \<open>
  The repetition [A-Za-z0-9_-]+ read from the start of the text (the anchor ^).
  \<open>classStar\<close> is the text left after the longest run of class characters;
  \<open>classPlus\<close> asks for a run of at least one character and is None when the text does
  not start with one.
\<close>

fun classStar :: "string \<Rightarrow> string" where
  "classStar [] = []"
| "classStar (c # cs) = (if codeClass c then classStar cs else c # cs)"

definition classPlus :: "string \<Rightarrow> string option" where
  "classPlus s =
     (case s of
        [] \<Rightarrow> None
      | c # cs \<Rightarrow> if codeClass c then Some (classStar cs) else None)"

text \<open>
  codeRegexp.MatchString: the pattern is anchored at both ends, so the text matches when
  the run starts at the first byte and the anchor $ finds nothing left after it.
\<close>

definition codeRegexp_MatchString :: "string \<Rightarrow> bool" where
  "codeRegexp_MatchString s = (case classPlus s of None \<Rightarrow> False | Some rest \<Rightarrow> rest = [])"

definition isValidCode :: "string \<Rightarrow> bool" where
  "isValidCode s = codeRegexp_MatchString s"

subsection \<open>Random codes (main.go, lines 318-334)\<close>

datatype gen_error = RandFailed rand_error | IndexOutOfRange

text \<open>
  The loop of genRandomCode: \<open>i\<close> is the loop variable, \<open>k\<close> counts the calls of rand.Int
  made so far, \<open>b\<close> is the byte slice. An index outside the alphabet would be a panic of
  the index expression.
\<close>

function gen_loop ::
  "(nat \<Rightarrow> rand_error + nat) \<Rightarrow> nat \<Rightarrow> nat \<Rightarrow> nat \<Rightarrow> string \<Rightarrow> (gen_error + string) \<times> nat" where
  "gen_loop rnd len i k b =
     (if i < len then
        (case rnd k of
           Inl err \<Rightarrow> (Inl (RandFailed err), Suc k)
         | Inr n \<Rightarrow>
             if n < length alphabet
             then gen_loop rnd len (Suc i) (Suc k) (b[i := alphabet ! n])
             else (Inl IndexOutOfRange, Suc k))
      else (Inr b, k))"
  by pat_completeness auto
termination
  by (relation "measure (\<lambda>(rnd, len, i, k, b). len - i)") auto

declare gen_loop.simps [simp del]

definition genRandomCode ::
  "(nat \<Rightarrow> rand_error + nat) \<Rightarrow> nat \<Rightarrow> int \<Rightarrow> (gen_error + string) \<times> nat" where
  "genRandomCode rnd k len =
     (let len = (if len \<le> 0 then DefaultCodeLen else len);
          b = replicate (nat len) (CHR 0x00)
      in gen_loop rnd (nat len) 0 k b)"

text \<open>Lines 321-324: the number of bytes the function makes for a requested length.\<close>

definition codeLen :: "int \<Rightarrow> nat" where
  "codeLen len = nat (if len \<le> 0 then DefaultCodeLen else len)"

text \<open>The text that the draws \<open>k\<close>, ..., \<open>k + n - 1\<close> spell when they all succeed.\<close>

definition drawn :: "(nat \<Rightarrow> rand_error + nat) \<Rightarrow> nat \<Rightarrow> nat \<Rightarrow> string" where
  "drawn rnd k n =
     map (\<lambda>i. case rnd (k + i) of Inr v \<Rightarrow> alphabet ! v | Inl err \<Rightarrow> CHR 0x00) [0..<n]"

subsection \<open>Creating a link (main.go, lines 149-234)\<close>

text \<open>
  The retry loop of lines 189-206: \<open>i\<close> is the loop variable, \<open>k\<close> the number of calls of
  rand.Int so far and \<open>code\<close> the variable the loop assigns. The result is the response of
  an early return, or the code the loop leaves.
\<close>

function gen_retry ::
  "(nat \<Rightarrow> rand_error + nat) \<Rightarrow> DB \<Rightarrow> nat \<Rightarrow> nat \<Rightarrow> string \<Rightarrow> response + string" where
  "gen_retry rnd db i k code =
     (if i < 5 then
        (case genRandomCode rnd k DefaultCodeLen of
           (Inl (RandFailed err), k') \<Rightarrow>
             Inl (JSON StatusInternalServerError (Error GenCodeFailed))
         | (Inl IndexOutOfRange, k') \<Rightarrow> Inl Panic
         | (Inr code', k') \<Rightarrow>
             (case First db code' of
                None \<Rightarrow> Inr code'
              | Some existing \<Rightarrow>
                  if i = 4 then Inl (JSON StatusInternalServerError (Error GenCodeConflict))
                  else gen_retry rnd db (Suc i) k' code'))
      else Inr code)"
  by pat_completeness auto
termination
  by (relation "measure (\<lambda>(rnd, db, i, k, code). 5 - i)") auto

declare gen_retry.simps [simp del]

text \<open>Lines 168-207: the custom code after its checks, or a generated one.\<close>

definition chooseCode :: "env \<Rightarrow> DB \<Rightarrow> CreateReq \<Rightarrow> response + string" where
  "chooseCode e db req =
     (if Custom req \<noteq> [] then
        if length (Custom req) > MaxCustomLength
        then Inl (JSON StatusBadRequest (Error CustomTooLong))
        else if \<not> isValidCode (Custom req)
        then Inl (JSON StatusBadRequest (Error CustomBadChars))
        else (case First db (Custom req) of
                Some existing \<Rightarrow> Inl (JSON StatusConflict (Error CustomExists))
              | None \<Rightarrow> Inr (Custom req))
      else gen_retry (rand_Int e) db 0 0 [])"

text \<open>
  Lines 215-217: the expiry of the new link. time.Duration(req.TTL) * time.Second is a
  product of signed 64-bit integers, which wraps; \<open>now\<close> is the reading of the clock.
\<close>

definition expiry :: "time \<Rightarrow> 64 word \<Rightarrow> NullTime" where
  "expiry now ttl =
     (if 0 < sint ttl then \<lparr>Time = now + sint (ttl * 1000000000), Valid = True\<rparr>
      else zeroNullTime)"

text \<open>
  handleCreate. \<open>body\<close> is the request body as c.ShouldBindJSON reads it, None when the
  binding fails; \<open>t1\<close> and \<open>t2\<close> are the two readings of time.Now().
\<close>

definition handleCreate ::
  "env \<Rightarrow> time \<Rightarrow> time \<Rightarrow> DB \<Rightarrow> CreateReq option \<Rightarrow> response \<times> DB" where
  "handleCreate e t1 t2 db body =
     (case body of
        None \<Rightarrow> (JSON StatusBadRequest (Error BindFailed), db)
      | Some req0 \<Rightarrow>
          let req = req0\<lparr>URL := TrimSpace e (URL req0)\<rparr> in
          if URL req = [] then (JSON StatusBadRequest (Error UrlEmpty), db)
          else if \<not> isValidURL (ParseRequestURI e) (URL req)
          then (JSON StatusBadRequest (Error UrlInvalid), db)
          else
            (case chooseCode e db req of
               Inl resp \<Rightarrow> (resp, db)
             | Inr code \<Rightarrow>
                 let link = \<lparr>ID = 0, Code = code, TargetURL = URL req, Clicks = 0,
                             CreatedAt = t1, ExpiredAt = expiry t2 (TTL req)\<rparr>
                 in
                 (case Create db link of
                    Inl err \<Rightarrow> (JSON StatusInternalServerError (Error SaveFailed), db)
                  | Inr db' \<Rightarrow>
                      let shortDomain = Getenv e DomainEnv;
                          shortDomain = (if shortDomain = [] then DefaultDomain else shortDomain);
                          resp = \<lparr>RespCode = code,
                                  ShortURL = TrimRight shortDomain ''/'' @ ''/'' @ code,
                                  RespURL = URL req\<rparr>
                      in (JSON StatusOK (Created resp), db'))))"

subsection \<open>Redirect, info and delete (main.go, lines 237-290)\<close>

text \<open>Line 251: the link has an expiry and the clock is after it.\<close>

definition expired :: "time \<Rightarrow> ShortLink \<Rightarrow> bool" where
  "expired now link \<longleftrightarrow> Valid (ExpiredAt link) \<and> now > Time (ExpiredAt link)"

text \<open>
  handleRedirect: the response, and the table after the request or the error of the
  update of the clicks. The handler does not look at the result of the update and
  redirects in both cases.
\<close>

definition handleRedirect :: "time \<Rightarrow> DB \<Rightarrow> string \<Rightarrow> response \<times> (update_error + DB)" where
  "handleRedirect now db code =
     (if code = [] then (JSON StatusBadRequest (Error CodeInvalid), Inr db)
      else
        (case First db code of
           None \<Rightarrow> (JSON StatusNotFound (Error LinkNotFound), Inr db)
         | Some link \<Rightarrow>
             if expired now link then (JSON StatusGone (Error LinkExpired), Inr db)
             else (Redirect StatusFound (TargetURL link), UpdateColumn_clicks db link)))"

definition handleInfo :: "DB \<Rightarrow> string \<Rightarrow> response \<times> DB" where
  "handleInfo db code =
     (case First db code of
        None \<Rightarrow> (JSON StatusNotFound (Error LinkNotFound), db)
      | Some link \<Rightarrow>
          (JSON StatusOK (Info \<lparr>InfoCode = Code link, InfoURL = TargetURL link,
                                InfoClicks = Clicks link, InfoCreatedAt = CreatedAt link,
                                InfoExpiredAt = ExpiredAt link\<rparr>), db))"

definition handleDelete :: "DB \<Rightarrow> string \<Rightarrow> response \<times> DB" where
  "handleDelete db code =
     (case Delete db code of
        (db', rowsAffected) \<Rightarrow>
          if rowsAffected = 0 then (JSON StatusNotFound (Error LinkNotFound), db')
          else (JSON StatusOK OkTrue, db'))"

subsection \<open>Sample inputs\<close>

text \<open>
  An environment to run the handlers in: no variable is set, every draw is the number its
  position gives, white space is the ASCII white space, and the parser knows three
  texts, on which it answers as url.ParseRequestURI does.
\<close>

definition asciiSpace :: "char \<Rightarrow> bool" where
  "asciiSpace c \<longleftrightarrow> c \<in> set [CHR 0x09, CHR 0x0A, CHR 0x0B, CHR 0x0C, CHR 0x0D, CHR '' '']"

definition sample_parse :: "string \<Rightarrow> parse_error + ParsedURL" where
  "sample_parse u =
     (if u = ''https://example.com''
      then Inr \<lparr>Scheme = ''https'', Opaque = [], Host = ''example.com'', Path = [], RawQuery = []\<rparr>
      else if u = ''http://example.com''
      then Inr \<lparr>Scheme = ''http'', Opaque = [], Host = ''example.com'', Path = [], RawQuery = []\<rparr>
      else if u = ''ftp://example.com''
      then Inr \<lparr>Scheme = ''ftp'', Opaque = [], Host = ''example.com'', Path = [], RawQuery = []\<rparr>
      else Inl ParseError)"

definition sample_env :: env where
  "sample_env =
     \<lparr>TrimSpace = (\<lambda>s. rev (dropWhile asciiSpace (rev (dropWhile asciiSpace s)))),
      ParseRequestURI = sample_parse,
      Getenv = (\<lambda>name. []),
      rand_Int = (\<lambda>k. Inr (k mod 62))\<rparr>"

definition empty_db :: DB where
  "empty_db = \<lparr>rows = [], next_id = 1\<rparr>"

text \<open>
  The table after one create request at the instant 0 for the custom code abc with a
  time to live of one second.
\<close>

definition req_abc :: CreateReq where
  "req_abc = \<lparr>URL = '' https://example.com '', Custom = ''abc'', TTL = 1\<rparr>"

definition db_abc :: DB where
  "db_abc = snd (handleCreate sample_env 0 0 empty_db (Some req_abc))"

text \<open>An environment whose every draw is 0, so that every generated code is 000000.\<close>

definition zero_env :: env where
  "zero_env = sample_env\<lparr>rand_Int := (\<lambda>k. Inr 0)\<rparr>"

text \<open>The table after a create request for the custom code 000000 that lives one second.\<close>

definition db_zeros :: DB where
  "db_zeros =
     snd (handleCreate sample_env 0 0 empty_db
            (Some \<lparr>URL = ''https://example.com'', Custom = ''000000'', TTL = 1\<rparr>))"


text \<open>An environment in which the short-link domain is configured with a trailing slash.\<close>

definition slash_env :: env where
  "slash_env = sample_env\<lparr>Getenv := (\<lambda>name. if name = DomainEnv then ''https://s.example.com/'' else [])\<rparr>"

section \<open>Properties\<close>

subsection \<open>Code validation\<close>

lemma codeClass_set:
  "codeClass c \<longleftrightarrow>
     c \<in> set ''ABCDEFGHIJKLMNOPQRSTUVWXYZabcdefghijklmnopqrstuvwxyz0123456789_-''"
proof (cases c)
  case (Char b0 b1 b2 b3 b4 b5 b6 b7)
  then show ?thesis
    by (cases b0; cases b1; cases b2; cases b3; cases b4; cases b5; cases b6; cases b7)
      (simp_all add: codeClass_def)
qed

lemma classStar_Nil_iff: "classStar s = [] \<longleftrightarrow> list_all codeClass s"
  by (induction s) auto

lemma MatchString_iff: "codeRegexp_MatchString s \<longleftrightarrow> s \<noteq> [] \<and> list_all codeClass s"
  by (cases s) (auto simp: codeRegexp_MatchString_def classPlus_def classStar_Nil_iff)

text \<open>
  Claim C7. isValidCode accepts a text exactly when it is not empty and each of its
  characters is a letter, a digit, an underscore or a hyphen; so a text with any other
  character is rejected. The text go_123-A is accepted; the texts "go 123", "a/b" and
  "a@b" are rejected.
\<close>

theorem isValidCode_iff:
  "(isValidCode s \<longleftrightarrow>
      s \<noteq> [] \<and>
      set s \<subseteq> set ''ABCDEFGHIJKLMNOPQRSTUVWXYZabcdefghijklmnopqrstuvwxyz0123456789_-'') \<and>
   isValidCode ''go_123-A'' \<and> \<not> isValidCode ''go 123'' \<and>
   \<not> isValidCode ''a/b'' \<and> \<not> isValidCode ''a@b''"
proof -
  have "list_all codeClass s \<longleftrightarrow>
      set s \<subseteq> set ''ABCDEFGHIJKLMNOPQRSTUVWXYZabcdefghijklmnopqrstuvwxyz0123456789_-''"
    unfolding list_all_iff codeClass_set by blast
  then have "isValidCode s \<longleftrightarrow>
      s \<noteq> [] \<and>
      set s \<subseteq> set ''ABCDEFGHIJKLMNOPQRSTUVWXYZabcdefghijklmnopqrstuvwxyz0123456789_-''"
    by (simp only: isValidCode_def MatchString_iff)
  moreover have "isValidCode ''go_123-A''" "\<not> isValidCode ''go 123''"
    "\<not> isValidCode ''a/b''" "\<not> isValidCode ''a@b''"
    by (simp_all add: isValidCode_def MatchString_iff codeClass_def)
  ultimately show ?thesis by blast
qed

theorem isValidCode_iff_witness:
  "isValidCode ''Ab-9_z'' \<and> \<not> isValidCode [] \<and> \<not> isValidCode ''Ab 9''"
  using isValidCode_iff [of "''Ab-9_z''"] isValidCode_iff [of "[]"] isValidCode_iff [of "''Ab 9''"]
  by simp

subsection \<open>Random codes\<close>

lemma length_alphabet: "length alphabet = 62"
  by (simp add: alphabet_def)

lemma distinct_alphabet: "distinct alphabet"
  by (simp add: alphabet_def)

lemma drawn_Suc:
  "drawn rnd k (Suc n) =
     (case rnd k of Inr v \<Rightarrow> alphabet ! v | Inl err \<Rightarrow> CHR 0x00) # drawn rnd (Suc k) n"
proof -
  have "[0..<Suc n] = 0 # map Suc [0..<n]"
    by (simp add: upt_conv_Cons map_Suc_upt del: upt_Suc)
  then show ?thesis
    by (simp add: drawn_def comp_def del: upt_Suc)
qed

lemma length_drawn: "length (drawn rnd k n) = n"
  by (simp add: drawn_def)

lemma gen_loop_ok:
  "\<forall>j<len - i. \<exists>v<62. rnd (k + j) = Inr v \<Longrightarrow> length b = len \<Longrightarrow> i \<le> len \<Longrightarrow>
   gen_loop rnd len i k b = (Inr (take i b @ drawn rnd k (len - i)), k + (len - i))"
proof (induction rnd len i k b rule: gen_loop.induct)
  case (1 rnd len i k b)
  show ?case
  proof (cases "i < len")
    case False
    with "1.prems" show ?thesis
      by (subst gen_loop.simps) (simp add: drawn_def)
  next
    case True
    then have "0 < len - i" by simp
    with "1.prems"(1) obtain v where v: "v < 62" "rnd k = Inr v"
      by force
    have step: "\<forall>j<len - Suc i. \<exists>v<62. rnd (Suc k + j) = Inr v"
    proof (intro allI impI)
      fix j assume "j < len - Suc i"
      then have "Suc j < len - i" by simp
      with "1.prems"(1) show "\<exists>v<62. rnd (Suc k + j) = Inr v" by force
    qed
    have len': "length (b[i := alphabet ! v]) = len"
      using "1.prems"(2) by simp
    have IH: "gen_loop rnd len (Suc i) (Suc k) (b[i := alphabet ! v]) =
        (Inr (take (Suc i) (b[i := alphabet ! v]) @ drawn rnd (Suc k) (len - Suc i)),
         Suc k + (len - Suc i))"
      using "1.IH" [OF True v(2) _ step len'] v(1) True by (simp add: length_alphabet)
    have tk: "take (Suc i) (b[i := alphabet ! v]) = take i b @ [alphabet ! v]"
      using True "1.prems"(2) by (simp add: take_Suc_conv_app_nth)
    have dr: "drawn rnd k (len - i) = (alphabet ! v) # drawn rnd (Suc k) (len - Suc i)"
      using True v(2) drawn_Suc [of rnd k "len - Suc i"] by (simp add: Suc_diff_Suc)
    show ?thesis
      using True v IH tk dr
      by (simp add: gen_loop.simps [of rnd len i k b] length_alphabet)
  qed
qed

lemma gen_loop_Inr:
  "fst (gen_loop rnd len i k b) = Inr c \<Longrightarrow> \<forall>j<len - i. \<exists>v<62. rnd (k + j) = Inr v"
proof (induction rnd len i k b rule: gen_loop.induct)
  case (1 rnd len i k b)
  show ?case
  proof (cases "i < len")
    case False
    then show ?thesis by simp
  next
    case True
    from "1.prems" True obtain v where v: "rnd k = Inr v" "v < 62"
      and rest: "fst (gen_loop rnd len (Suc i) (Suc k) (b[i := alphabet ! v])) = Inr c"
      by (auto simp: gen_loop.simps [of rnd len i k b] length_alphabet
          split: sum.splits if_splits)
    from "1.IH" [OF True v(1) _ rest] v(2)
    have IH: "\<forall>j<len - Suc i. \<exists>v<62. rnd (Suc k + j) = Inr v"
      by (simp add: length_alphabet)
    show ?thesis
    proof (intro allI impI)
      fix j assume j: "j < len - i"
      show "\<exists>v<62. rnd (k + j) = Inr v"
      proof (cases j)
        case 0
        with v show ?thesis by auto
      next
        case (Suc j')
        with j have "j' < len - Suc i" by simp
        with IH Suc show ?thesis by force
      qed
    qed
  qed
qed

lemma gen_loop_fail:
  "j < len - i \<Longrightarrow> \<forall>m<j. \<exists>v<62. rnd (k + m) = Inr v \<Longrightarrow> rnd (k + j) = Inl err \<Longrightarrow>
   fst (gen_loop rnd len i k b) = Inl (RandFailed err)"
proof (induction rnd len i k b arbitrary: j rule: gen_loop.induct)
  case (1 rnd len i k b)
  from "1.prems"(1) have lt: "i < len" by simp
  show ?case
  proof (cases j)
    case 0
    with "1.prems"(3) lt show ?thesis
      by (simp add: gen_loop.simps [of rnd len i k b])
  next
    case (Suc j')
    with "1.prems"(2) obtain v where v: "v < 62" "rnd k = Inr v"
      by force
    have a: "j' < len - Suc i" using "1.prems"(1) Suc by simp
    have b: "\<forall>m<j'. \<exists>v<62. rnd (Suc k + m) = Inr v"
    proof (intro allI impI)
      fix m assume "m < j'"
      then have "Suc m < j" using Suc by simp
      with "1.prems"(2) show "\<exists>v<62. rnd (Suc k + m) = Inr v" by force
    qed
    have c: "rnd (Suc k + j') = Inl err" using "1.prems"(3) Suc by simp
    from "1.IH" [OF lt v(2) _ a b c] v(1)
    have "fst (gen_loop rnd len (Suc i) (Suc k) (b[i := alphabet ! v])) = Inl (RandFailed err)"
      by (simp add: length_alphabet)
    with lt v show ?thesis
      by (simp add: gen_loop.simps [of rnd len i k b] length_alphabet)
  qed
qed

lemma set_drawn:
  "\<forall>j<n. \<exists>v<62. rnd (k + j) = Inr v \<Longrightarrow> set (drawn rnd k n) \<subseteq> set alphabet"
proof
  fix c assume ok: "\<forall>j<n. \<exists>v<62. rnd (k + j) = Inr v" and "c \<in> set (drawn rnd k n)"
  then obtain j where j: "j < n" and c: "c = (case rnd (k + j) of Inr v \<Rightarrow> alphabet ! v | Inl err \<Rightarrow> CHR 0x00)"
    by (auto simp: drawn_def)
  from ok j obtain v where "v < 62" "rnd (k + j) = Inr v" by blast
  with c show "c \<in> set alphabet" by (simp add: length_alphabet)
qed

lemma codeLen_eq: "codeLen L = (if L \<le> 0 then 6 else nat L)"
  by (simp add: codeLen_def DefaultCodeLen_def)

lemma genRandomCode_ok:
  assumes "\<forall>j<codeLen L. \<exists>v<62. rnd (k + j) = Inr v"
  shows "genRandomCode rnd k L = (Inr (drawn rnd k (codeLen L)), k + codeLen L)"
proof -
  have "gen_loop rnd (codeLen L) 0 k (replicate (codeLen L) (CHR 0x00)) =
      (Inr (drawn rnd k (codeLen L)), k + codeLen L)"
    using gen_loop_ok [of "codeLen L" 0 rnd k "replicate (codeLen L) (CHR 0x00)"] assms
    by simp
  then show ?thesis
    by (simp add: genRandomCode_def Let_def codeLen_def)
qed

lemma genRandomCode_Inr:
  assumes "fst (genRandomCode rnd k L) = Inr code"
  shows "\<forall>j<codeLen L. \<exists>v<62. rnd (k + j) = Inr v"
  using gen_loop_Inr [of rnd "codeLen L" 0 k "replicate (codeLen L) (CHR 0x00)" code] assms
  by (simp add: genRandomCode_def Let_def codeLen_def)

lemma genRandomCode_fail:
  assumes "j < codeLen L" "\<forall>m<j. \<exists>v<62. rnd (k + m) = Inr v" "rnd (k + j) = Inl err"
  shows "fst (genRandomCode rnd k L) = Inl (RandFailed err)"
  using gen_loop_fail [of j "codeLen L" 0 rnd k err "replicate (codeLen L) (CHR 0x00)"] assms
  by (simp add: genRandomCode_def Let_def codeLen_def)

text \<open>
  Claim C8. Let n be the requested length L when L > 0 and 6 otherwise. When the first n
  calls of rand.Int from position k succeed, genRandomCode returns a text of exactly n
  characters, each of the 62-character alphabet 0-9a-zA-Z (the character that each draw
  indexes). It returns a text only in that case: when a call fails, the function returns
  the error of the first failing call and no text.
\<close>

theorem genRandomCode_spec:
  assumes "n = (if L \<le> 0 then 6 else nat L)"
  shows "((\<forall>j<n. \<exists>v<62. rnd (k + j) = Inr v) \<longrightarrow>
            (\<exists>code. genRandomCode rnd k L = (Inr code, k + n) \<and> length code = n \<and>
               set code \<subseteq> set alphabet \<and> code = drawn rnd k n)) \<and>
         (\<forall>code. fst (genRandomCode rnd k L) = Inr code \<longrightarrow>
            length code = n \<and> set code \<subseteq> set alphabet \<and>
            (\<forall>j<n. \<exists>v<62. rnd (k + j) = Inr v)) \<and>
         (\<forall>j err. j < n \<and> (\<forall>m<j. \<exists>v<62. rnd (k + m) = Inr v) \<and> rnd (k + j) = Inl err \<longrightarrow>
            fst (genRandomCode rnd k L) = Inl (RandFailed err)) \<and>
         alphabet = ''0123456789'' @ ''abcdefghijklmnopqrstuvwxyz'' @ ''ABCDEFGHIJKLMNOPQRSTUVWXYZ'' \<and>
         length alphabet = 62 \<and> distinct alphabet"
proof -
  have n: "n = codeLen L"
    using assms by (simp add: codeLen_eq)
  have ok: "\<exists>code. genRandomCode rnd k L = (Inr code, k + n) \<and> length code = n \<and>
      set code \<subseteq> set alphabet \<and> code = drawn rnd k n"
    if "\<forall>j<n. \<exists>v<62. rnd (k + j) = Inr v"
    using that genRandomCode_ok [of L rnd k] set_drawn [of n rnd k]
    by (simp add: n length_drawn)
  have inr: "length code = n \<and> set code \<subseteq> set alphabet \<and>
      (\<forall>j<n. \<exists>v<62. rnd (k + j) = Inr v)"
    if "fst (genRandomCode rnd k L) = Inr code" for code
  proof -
    from that have draws: "\<forall>j<n. \<exists>v<62. rnd (k + j) = Inr v"
      using genRandomCode_Inr [of rnd k L code] by (simp add: n)
    with ok that show ?thesis by auto
  qed
  have fail: "fst (genRandomCode rnd k L) = Inl (RandFailed err)"
    if "j < n \<and> (\<forall>m<j. \<exists>v<62. rnd (k + m) = Inr v) \<and> rnd (k + j) = Inl err" for j err
    using that genRandomCode_fail [of j L rnd k err] by (simp add: n)
  have "alphabet = ''0123456789'' @ ''abcdefghijklmnopqrstuvwxyz'' @ ''ABCDEFGHIJKLMNOPQRSTUVWXYZ''"
    by (simp add: alphabet_def)
  with ok inr fail length_alphabet distinct_alphabet show ?thesis
    by blast
qed

theorem genRandomCode_spec_witness:
  "genRandomCode (\<lambda>k. Inr (k mod 62)) 10 0 = (Inr ''abcdef'', 16) \<and>
   genRandomCode (\<lambda>k. Inr (k mod 62)) 60 4 = (Inr ''YZ01'', 64) \<and>
   fst (genRandomCode (\<lambda>k. if k = 3 then Inl RandError else Inr (k mod 62)) 0 8) =
     Inl (RandFailed RandError)"
proof -
  let ?r = "\<lambda>k::nat. (Inr (k mod 62) :: rand_error + nat)"
  let ?f = "\<lambda>k::nat. if k = 3 then Inl RandError else (Inr (k mod 62) :: rand_error + nat)"
  have a: "\<forall>j<6. \<exists>v<62. ?r (10 + j) = Inr v"
    by simp
  have b: "\<forall>j<4. \<exists>v<62. ?r (60 + j) = Inr v"
    by simp
  have c: "(3::nat) < 8 \<and> (\<forall>m<3. \<exists>v<62. ?f (0 + m) = Inr v) \<and> ?f (0 + 3) = Inl RandError"
    by simp
  have d: "drawn ?r 10 6 = ''abcdef''" "drawn ?r 60 4 = ''YZ01''"
    by (simp_all add: drawn_def alphabet_def upt_rec)
  have "\<exists>code. genRandomCode ?r 10 0 = (Inr code, 10 + 6) \<and> length code = 6 \<and>
      set code \<subseteq> set alphabet \<and> code = drawn ?r 10 6"
    using genRandomCode_spec [of 6 0 ?r 10, THEN conjunct1] a by simp
  then have 1: "genRandomCode ?r 10 0 = (Inr ''abcdef'', 16)"
    using d(1) by auto
  have "\<exists>code. genRandomCode ?r 60 4 = (Inr code, 60 + 4) \<and> length code = 4 \<and>
      set code \<subseteq> set alphabet \<and> code = drawn ?r 60 4"
    using genRandomCode_spec [of 4 4 ?r 60, THEN conjunct1] b by simp
  then have 2: "genRandomCode ?r 60 4 = (Inr ''YZ01'', 64)"
    using d(2) by auto
  have "\<forall>j err. j < 8 \<and> (\<forall>m<j. \<exists>v<62. ?f (0 + m) = Inr v) \<and> ?f (0 + j) = Inl err \<longrightarrow>
      fst (genRandomCode ?f 0 8) = Inl (RandFailed err)"
    using genRandomCode_spec [of 8 8 ?f 0, THEN conjunct2, THEN conjunct2, THEN conjunct1]
    by simp
  then have 3: "fst (genRandomCode ?f 0 8) = Inl (RandFailed RandError)"
    using c by blast
  from 1 2 3 show ?thesis by blast
qed

subsection \<open>URL validation\<close>

lemma HasPrefix_iff: "HasPrefix s p \<longleftrightarrow> (\<exists>t. s = p @ t)"
proof
  assume "HasPrefix s p"
  then have "s = p @ drop (length p) s"
    by (metis HasPrefix_def append_take_drop_id)
  then show "\<exists>t. s = p @ t" ..
next
  assume "\<exists>t. s = p @ t"
  then show "HasPrefix s p" by (auto simp: HasPrefix_def)
qed

lemma Contains_iff: "Contains s sub \<longleftrightarrow> (\<exists>a b. s = a @ sub @ b)"
proof (induction s)
  case Nil
  then show ?case by auto
next
  case (Cons c cs)
  show ?case
  proof
    assume "Contains (c # cs) sub"
    then consider "HasPrefix (c # cs) sub" | "Contains cs sub" by auto
    then show "\<exists>a b. c # cs = a @ sub @ b"
    proof cases
      case 1
      then obtain t where "c # cs = sub @ t" by (auto simp: HasPrefix_iff)
      then have "c # cs = [] @ sub @ t" by simp
      then show ?thesis by blast
    next
      case 2
      with Cons.IH obtain a b where "cs = a @ sub @ b" by blast
      then have "c # cs = (c # a) @ sub @ b" by simp
      then show ?thesis by blast
    qed
  next
    assume "\<exists>a b. c # cs = a @ sub @ b"
    then obtain a b where ab: "c # cs = a @ sub @ b" by blast
    show "Contains (c # cs) sub"
    proof (cases a)
      case Nil
      with ab have "HasPrefix (c # cs) sub" by (auto simp: HasPrefix_iff)
      then show ?thesis by simp
    next
      case (Cons x a')
      with ab have "cs = a' @ sub @ b" by simp
      with Cons.IH have "Contains cs sub" by blast
      then show ?thesis by simp
    qed
  qed
qed

text \<open>
  Claim C6. Let u be the text s itself when s contains "://" and "http://" followed by s
  otherwise. isValidURL accepts s exactly when url.ParseRequestURI parses u and the scheme
  of the parsed URL is http or https; when the parse fails, s is rejected. The function
  is a function of the parser and the text alone.
\<close>

theorem isValidURL_iff:
  assumes "u = (if \<exists>a b. s = a @ ''://'' @ b then s else ''http://'' @ s)"
  shows "(isValidURL parse s \<longleftrightarrow>
           (\<exists>parsed. parse u = Inr parsed \<and> (Scheme parsed = ''http'' \<or> Scheme parsed = ''https''))) \<and>
         (\<forall>err. parse u = Inl err \<longrightarrow> \<not> isValidURL parse s)"
proof -
  have "(if \<not> Contains s ''://'' then ''http://'' @ s else s) = u"
    using assms by (simp add: Contains_iff)
  then show ?thesis
    by (cases "parse u") (simp_all add: isValidURL_def)
qed

theorem isValidURL_iff_witness:
  "isValidURL sample_parse ''https://example.com'' \<and> isValidURL sample_parse ''example.com'' \<and>
   \<not> isValidURL sample_parse ''ftp://example.com'' \<and> \<not> isValidURL sample_parse ''exa mple''"
proof -
  have c: "Contains ''https://example.com'' ''://''" "\<not> Contains ''example.com'' ''://''"
    "Contains ''ftp://example.com'' ''://''" "\<not> Contains ''exa mple'' ''://''"
    by (simp_all add: HasPrefix_def)
  have 1: "''https://example.com'' =
      (if \<exists>a b. ''https://example.com'' = a @ ''://'' @ b then ''https://example.com''
       else ''http://'' @ ''https://example.com'')"
    using c(1) unfolding Contains_iff by simp
  have 2: "''http://example.com'' =
      (if \<exists>a b. ''example.com'' = a @ ''://'' @ b then ''example.com''
       else ''http://'' @ ''example.com'')"
    using c(2) unfolding Contains_iff by simp
  have 3: "''ftp://example.com'' =
      (if \<exists>a b. ''ftp://example.com'' = a @ ''://'' @ b then ''ftp://example.com''
       else ''http://'' @ ''ftp://example.com'')"
    using c(3) unfolding Contains_iff by simp
  have 4: "''http://exa mple'' =
      (if \<exists>a b. ''exa mple'' = a @ ''://'' @ b then ''exa mple''
       else ''http://'' @ ''exa mple'')"
    using c(4) unfolding Contains_iff by simp
  show ?thesis
    using isValidURL_iff [OF 1, of sample_parse] isValidURL_iff [OF 2, of sample_parse]
      isValidURL_iff [OF 3, of sample_parse] isValidURL_iff [OF 4, of sample_parse]
    by (simp add: sample_parse_def)
qed

subsection \<open>The link table\<close>

lemma First_Some: "First db c = Some l \<Longrightarrow> l \<in> set (rows db) \<and> Code l = c"
  by (auto simp: First_def find_Some_iff)

lemma First_None_iff: "First db c = None \<longleftrightarrow> (\<forall>r\<in>set (rows db). Code r \<noteq> c)"
  by (auto simp: First_def find_None_iff)

lemma find_distinct:
  "distinct (map f xs) \<Longrightarrow> x \<in> set xs \<Longrightarrow> find (\<lambda>y. f y = f x) xs = Some x"
  by (induction xs) (auto simp: image_iff)

lemma First_stored:
  "wf_db db \<Longrightarrow> l \<in> set (rows db) \<Longrightarrow> First db (Code l) = Some l"
  by (simp add: wf_db_def First_def find_distinct)




lemma UpdateColumn_clicks_overflow:
  assumes "l \<in> set (rows db)" "sint (Clicks l) = MaxInt64"
  shows "UpdateColumn_clicks db l = Inl ClicksOverflow"
proof -
  from assms have "list_ex (\<lambda>r. ID r = ID l \<and> MaxInt64 < sint (Clicks r) + 1) (rows db)"
    by (auto simp: list_ex_iff)
  then show ?thesis by (simp add: UpdateColumn_clicks_def)
qed

lemma wf_empty_db: "wf_db empty_db"
  by (simp add: wf_db_def empty_db_def)

lemma wf_Create:
  assumes "wf_db db" "Create db link = Inr db'"
  shows "wf_db db'"
proof -
  from assms(2) have fresh: "\<forall>r\<in>set (rows db). Code r \<noteq> Code link"
    and db': "db' = db\<lparr>rows := rows db @ [link\<lparr>ID := next_id db\<rparr>], next_id := Suc (next_id db)\<rparr>"
    by (auto simp: Create_def list_ex_iff split: if_splits)
  from assms(1) have below: "\<forall>r\<in>set (rows db). ID r < next_id db"
    and dist: "distinct (map ID (rows db))" "distinct (map Code (rows db))"
    by (simp_all add: wf_db_def list_all_iff)
  from below have "next_id db \<notin> ID ` set (rows db)" by auto
  moreover from fresh have "Code link \<notin> Code ` set (rows db)" by auto
  moreover from below have "\<forall>r\<in>set (rows db). ID r < Suc (next_id db)" by auto
  ultimately show ?thesis
    using dist by (simp add: wf_db_def db' list_all_iff)
qed

lemma wf_UpdateColumn_clicks:
  assumes "wf_db db" "UpdateColumn_clicks db l = Inr db'"
  shows "wf_db db'"
proof -
  let ?f = "\<lambda>r. if ID r = ID l then r\<lparr>Clicks := Clicks r + 1\<rparr> else r"
  from assms(2) have db': "db' = db\<lparr>rows := map ?f (rows db)\<rparr>"
    by (simp add: UpdateColumn_clicks_def split: if_splits)
  have same: "map ID (map ?f xs) = map ID xs \<and> map Code (map ?f xs) = map Code xs"
    for xs :: "ShortLink list"
    by (induction xs) auto
  have 1: "map ID (rows db') = map ID (rows db)"
    and 2: "map Code (rows db') = map Code (rows db)"
    using same [of "rows db"] by (simp_all add: db' del: map_map)
  have 3: "list_all (\<lambda>r. ID r < next_id db') (rows db')"
    using assms(1) by (auto simp: wf_db_def list_all_iff db')
  from assms(1) show ?thesis
    unfolding wf_db_def 1 2 using 3 by simp
qed

lemma wf_Delete: "wf_db db \<Longrightarrow> wf_db (fst (Delete db c))"
  by (auto simp: wf_db_def Delete_def list_all_iff distinct_map_filter)

subsection \<open>The sample inputs\<close>

lemma sample_TrimSpace: "TrimSpace sample_env '' https://example.com '' = ''https://example.com''"
  "TrimSpace sample_env ''https://example.com'' = ''https://example.com''"
  by (simp_all add: sample_env_def asciiSpace_def)

lemma sample_valid: "isValidURL (ParseRequestURI sample_env) ''https://example.com''"
  by (simp add: isValidURL_def sample_env_def sample_parse_def HasPrefix_def)

lemma expiry_1: "expiry 0 1 = \<lparr>Time = 1000000000, Valid = True\<rparr>"
  by (simp add: expiry_def)

lemma db_abc_eq:
  "db_abc = \<lparr>rows = [\<lparr>ID = 1, Code = ''abc'', TargetURL = ''https://example.com'', Clicks = 0,
       CreatedAt = 0, ExpiredAt = \<lparr>Time = 1000000000, Valid = True\<rparr>\<rparr>], next_id = 2\<rparr>"
  by (simp add: db_abc_def req_abc_def handleCreate_def sample_TrimSpace sample_valid chooseCode_def
      MaxCustomLength_def isValidCode_def codeRegexp_MatchString_def classPlus_def codeClass_def
      First_def Create_def empty_db_def expiry_1 Let_def)

lemma wf_db_abc: "wf_db db_abc"
  by (simp add: db_abc_eq wf_db_def)

subsection \<open>Redirect\<close>

lemma handleRedirect_not_found:
  "code \<noteq> [] \<Longrightarrow> First db code = None \<Longrightarrow>
   handleRedirect now db code = (JSON StatusNotFound (Error LinkNotFound), Inr db)"
  by (simp add: handleRedirect_def)

lemma handleRedirect_found:
  "code \<noteq> [] \<Longrightarrow> First db code = Some link \<Longrightarrow>
   handleRedirect now db code =
     (if expired now link then (JSON StatusGone (Error LinkExpired), Inr db)
      else (Redirect StatusFound (TargetURL link), UpdateColumn_clicks db link))"
  by (simp add: handleRedirect_def)

lemma handleInfo_found:
  "First db code = Some link \<Longrightarrow>
   handleInfo db code =
     (JSON StatusOK (Info \<lparr>InfoCode = Code link, InfoURL = TargetURL link,
        InfoClicks = Clicks link, InfoCreatedAt = CreatedAt link,
        InfoExpiredAt = ExpiredAt link\<rparr>), db)"
  by (simp add: handleInfo_def)

text \<open>
  Claim C3. A redirect request for a code (the router passes no empty code) that no stored
  link has is answered with 404 and leaves the table as it is. When the stored link with
  that code has an expiry in the past, the answer is 410 and the table is unchanged: the
  link's clicks are not incremented, and an info request on the table after the redirect
  still answers with the record and its clicks.
\<close>

theorem redirect_not_found_or_gone:
  assumes "wf_db db" "code \<noteq> []"
  shows "((\<forall>r\<in>set (rows db). Code r \<noteq> code) \<longrightarrow>
            handleRedirect now db code = (JSON StatusNotFound (Error LinkNotFound), Inr db)) \<and>
         (\<forall>link. link \<in> set (rows db) \<and> Code link = code \<and>
              Valid (ExpiredAt link) \<and> Time (ExpiredAt link) < now \<longrightarrow>
            handleRedirect now db code = (JSON StatusGone (Error LinkExpired), Inr db) \<and>
            (\<exists>db'. snd (handleRedirect now db code) = Inr db' \<and>
               fst (handleInfo db' code) =
                 JSON StatusOK (Info \<lparr>InfoCode = code, InfoURL = TargetURL link,
                   InfoClicks = Clicks link, InfoCreatedAt = CreatedAt link,
                   InfoExpiredAt = ExpiredAt link\<rparr>)))"
proof (intro conjI allI impI)
  assume "\<forall>r\<in>set (rows db). Code r \<noteq> code"
  then have "First db code = None" by (simp add: First_None_iff)
  with assms(2)
  show "handleRedirect now db code = (JSON StatusNotFound (Error LinkNotFound), Inr db)"
    by (rule handleRedirect_not_found)
next
  fix link
  assume l: "link \<in> set (rows db) \<and> Code link = code \<and>
      Valid (ExpiredAt link) \<and> Time (ExpiredAt link) < now"
  then have f: "First db code = Some link"
    using First_stored [OF assms(1), of link] by auto
  from l have "expired now link" by (simp add: expired_def)
  with f assms(2)
  show g: "handleRedirect now db code = (JSON StatusGone (Error LinkExpired), Inr db)"
    by (simp add: handleRedirect_found)
  have "fst (handleInfo db code) =
      JSON StatusOK (Info \<lparr>InfoCode = code, InfoURL = TargetURL link,
        InfoClicks = Clicks link, InfoCreatedAt = CreatedAt link,
        InfoExpiredAt = ExpiredAt link\<rparr>)"
    using f l by (simp add: handleInfo_found)
  with g show "\<exists>db'. snd (handleRedirect now db code) = Inr db' \<and>
      fst (handleInfo db' code) =
        JSON StatusOK (Info \<lparr>InfoCode = code, InfoURL = TargetURL link,
          InfoClicks = Clicks link, InfoCreatedAt = CreatedAt link,
          InfoExpiredAt = ExpiredAt link\<rparr>)"
    by simp
qed

theorem redirect_not_found_or_gone_witness:
  "handleRedirect 2000000000 db_abc ''xyz'' =
     (JSON StatusNotFound (Error LinkNotFound), Inr db_abc) \<and>
   handleRedirect 2000000000 db_abc ''abc'' = (JSON StatusGone (Error LinkExpired), Inr db_abc) \<and>
   fst (handleInfo db_abc ''abc'') =
     JSON StatusOK (Info \<lparr>InfoCode = ''abc'', InfoURL = ''https://example.com'',
       InfoClicks = 0, InfoCreatedAt = 0,
       InfoExpiredAt = \<lparr>Time = 1000000000, Valid = True\<rparr>\<rparr>)"
proof -
  let ?l = "\<lparr>ID = 1, Code = ''abc'', TargetURL = ''https://example.com'', Clicks = 0,
       CreatedAt = 0, ExpiredAt = \<lparr>Time = 1000000000, Valid = True\<rparr>\<rparr>"
  have ne: "''xyz'' \<noteq> []" "''abc'' \<noteq> []" by simp_all
  have none: "\<forall>r\<in>set (rows db_abc). Code r \<noteq> ''xyz''"
    by (simp add: db_abc_eq)
  have l: "?l \<in> set (rows db_abc) \<and> Code ?l = ''abc'' \<and>
      Valid (ExpiredAt ?l) \<and> Time (ExpiredAt ?l) < 2000000000"
    by (simp add: db_abc_eq)
  from redirect_not_found_or_gone [OF wf_db_abc ne(1), of 2000000000] none
  have 1: "handleRedirect 2000000000 db_abc ''xyz'' =
      (JSON StatusNotFound (Error LinkNotFound), Inr db_abc)"
    by blast
  from redirect_not_found_or_gone [OF wf_db_abc ne(2), of 2000000000] l
  have 2: "handleRedirect 2000000000 db_abc ''abc'' =
      (JSON StatusGone (Error LinkExpired), Inr db_abc)"
    and "\<exists>db'. snd (handleRedirect 2000000000 db_abc ''abc'') = Inr db' \<and>
      fst (handleInfo db' ''abc'') =
        JSON StatusOK (Info \<lparr>InfoCode = ''abc'', InfoURL = TargetURL ?l,
          InfoClicks = Clicks ?l, InfoCreatedAt = CreatedAt ?l,
          InfoExpiredAt = ExpiredAt ?l\<rparr>)"
    by blast+
  then obtain db' where "snd (handleRedirect 2000000000 db_abc ''abc'') = Inr db'"
    and i: "fst (handleInfo db' ''abc'') =
        JSON StatusOK (Info \<lparr>InfoCode = ''abc'', InfoURL = TargetURL ?l,
          InfoClicks = Clicks ?l, InfoCreatedAt = CreatedAt ?l,
          InfoExpiredAt = ExpiredAt ?l\<rparr>)"
    by blast
  with 2 have "db' = db_abc" by simp
  with i have 3: "fst (handleInfo db_abc ''abc'') =
     JSON StatusOK (Info \<lparr>InfoCode = ''abc'', InfoURL = ''https://example.com'',
       InfoClicks = 0, InfoCreatedAt = 0,
       InfoExpiredAt = \<lparr>Time = 1000000000, Valid = True\<rparr>\<rparr>)"
    by simp
  show ?thesis
    using 1 2 3 by (intro conjI)
qed







subsection \<open>Creating a link\<close>

lemma genRandomCode_result:
  assumes "genRandomCode rnd k L = (Inr c, k')"
  shows "c = drawn rnd k (codeLen L) \<and> k' = k + codeLen L \<and> length c = codeLen L"
proof -
  from assms have "fst (genRandomCode rnd k L) = Inr c" by simp
  then have "\<forall>j<codeLen L. \<exists>v<62. rnd (k + j) = Inr v"
    by (rule genRandomCode_Inr)
  then have "genRandomCode rnd k L = (Inr (drawn rnd k (codeLen L)), k + codeLen L)"
    by (rule genRandomCode_ok)
  with assms show ?thesis by (auto simp: length_drawn)
qed

lemma codeLen_Default: "codeLen DefaultCodeLen = 6"
  by (simp add: codeLen_def DefaultCodeLen_def)

lemma gen_retry_step:
  assumes "i < 5" "genRandomCode rnd k DefaultCodeLen = (Inr c, k')"
  shows "gen_retry rnd db i k code =
         (case First db c of
            None \<Rightarrow> Inr c
          | Some existing \<Rightarrow>
              if i = 4 then Inl (JSON StatusInternalServerError (Error GenCodeConflict))
              else gen_retry rnd db (Suc i) k' c)"
  using assms by (subst gen_retry.simps) simp

lemma gen_retry_Inr:
  "gen_retry rnd db i k c = Inr code \<Longrightarrow> i < 5 \<Longrightarrow> First db code = None \<and> length code = 6"
proof (induction rnd db i k c rule: gen_retry.induct)
  case (1 rnd db i k c)
  obtain x k' where g: "genRandomCode rnd k DefaultCodeLen = (x, k')"
    by (cases "genRandomCode rnd k DefaultCodeLen")
  show ?case
  proof (cases x)
    case (Inl err)
    with "1.prems" g show ?thesis
      by (subst (asm) gen_retry.simps) (simp split: gen_error.splits)
  next
    case (Inr c')
    with g have g': "genRandomCode rnd k DefaultCodeLen = (Inr c', k')" by simp
    have len: "length c' = 6"
      using genRandomCode_result [OF g'] by (simp add: codeLen_Default length_drawn)
    show ?thesis
    proof (cases "First db c'")
      case None
      with "1.prems" g' len show ?thesis
        by (simp add: gen_retry_step [OF "1.prems"(2) g'])
    next
      case (Some existing)
      with "1.prems" have i: "i \<noteq> 4" and r: "gen_retry rnd db (Suc i) k' c' = Inr code"
        by (simp_all add: gen_retry_step [OF "1.prems"(2) g'] split: if_splits)
      from i "1.prems"(2) have "Suc i < 5" by simp
      with "1.IH" [OF "1.prems"(2) g [symmetric] Inr Some i r] show ?thesis .
    qed
  qed
qed

lemma gen_retry_Inl:
  "gen_retry rnd db i k c = Inl resp \<Longrightarrow>
   resp = JSON StatusInternalServerError (Error GenCodeFailed) \<or>
   resp = JSON StatusInternalServerError (Error GenCodeConflict) \<or> resp = Panic"
proof (induction rnd db i k c rule: gen_retry.induct)
  case (1 rnd db i k c)
  from "1.prems" have lt: "i < 5"
    by (subst (asm) gen_retry.simps) (simp split: if_splits)
  obtain x k' where g: "genRandomCode rnd k DefaultCodeLen = (x, k')"
    by (cases "genRandomCode rnd k DefaultCodeLen")
  show ?case
  proof (cases x)
    case (Inl err)
    with "1.prems" g lt show ?thesis
      by (subst (asm) gen_retry.simps) (auto split: gen_error.splits)
  next
    case (Inr c')
    with g have g': "genRandomCode rnd k DefaultCodeLen = (Inr c', k')" by simp
    show ?thesis
    proof (cases "First db c'")
      case None
      with "1.prems" show ?thesis
        by (simp add: gen_retry_step [OF lt g'])
    next
      case (Some existing)
      show ?thesis
      proof (cases "i = 4")
        case True
        with "1.prems" Some gen_retry_step [OF lt g', of db c] show ?thesis
          by simp
      next
        case False
        with "1.prems" Some have "gen_retry rnd db (Suc i) k' c' = Inl resp"
          by (simp add: gen_retry_step [OF lt g'])
        with "1.IH" [OF lt g [symmetric] Inr Some False] show ?thesis .
      qed
    qed
  qed
qed

lemma gen_retry_find:
  assumes "\<forall>m<30. \<exists>v<62. rnd m = Inr v" "i < 5"
  shows "gen_retry rnd db i (6 * i) c =
         (case find (\<lambda>c. First db c = None) (map (\<lambda>j. drawn rnd (6 * j) 6) [i..<5]) of
            None \<Rightarrow> Inl (JSON StatusInternalServerError (Error GenCodeConflict))
          | Some c' \<Rightarrow> Inr c')"
  using assms(2)
proof (induction "4 - i" arbitrary: i c)
  case 0
  then have i: "i = 4" by simp
  have "\<forall>j<codeLen DefaultCodeLen. \<exists>v<62. rnd (24 + j) = Inr v"
    using assms(1) by (simp add: codeLen_Default)
  then have g: "genRandomCode rnd 24 DefaultCodeLen = (Inr (drawn rnd 24 6), 30)"
    using genRandomCode_ok [of DefaultCodeLen rnd 24] by (simp add: codeLen_Default)
  have "[4..<5] = [4::nat]" by (simp add: upt_rec)
  then show ?case
    using gen_retry_step [of 4 rnd 24 "drawn rnd 24 6" 30 db c] g
    by (simp add: i split: option.splits)
next
  case (Suc n)
  then have i: "i < 4" by simp
  then have i5: "i < 5" by simp
  have "\<forall>j<codeLen DefaultCodeLen. \<exists>v<62. rnd (6 * i + j) = Inr v"
    using assms(1) i by (simp add: codeLen_Default)
  then have g: "genRandomCode rnd (6 * i) DefaultCodeLen = (Inr (drawn rnd (6 * i) 6), 6 * Suc i)"
    using genRandomCode_ok [of DefaultCodeLen rnd "6 * i"] by (simp add: codeLen_Default)
  have u: "[i..<5] = i # [Suc i..<5]"
    using i by (simp add: upt_rec)
  have "n = 4 - Suc i" "Suc i < 5"
    using Suc.hyps(2) i by simp_all
  from Suc.hyps(1) [OF this] have
    IH: "gen_retry rnd db (Suc i) (6 * Suc i) (drawn rnd (6 * i) 6) =
     (case find (\<lambda>c. First db c = None) (map (\<lambda>j. drawn rnd (6 * j) 6) [Suc i..<5]) of
        None \<Rightarrow> Inl (JSON StatusInternalServerError (Error GenCodeConflict))
      | Some c' \<Rightarrow> Inr c')" .
  show ?case
    using i unfolding gen_retry_step [OF i5 g] u IH
    by (simp split: option.splits)
qed

lemma chooseCode_URL [simp]: "chooseCode e db (req\<lparr>URL := u\<rparr>) = chooseCode e db req"
  by (simp add: chooseCode_def split: option.splits)

lemma chooseCode_TTL [simp]: "chooseCode e db (req\<lparr>TTL := t\<rparr>) = chooseCode e db req"
  by (simp add: chooseCode_def split: option.splits)

lemma chooseCode_Inr:
  "chooseCode e db req = Inr code \<Longrightarrow> First db code = None \<and> code \<noteq> []"
  using gen_retry_Inr [of "rand_Int e" db 0 0 "[]" code]
  by (auto simp: chooseCode_def split: if_splits option.splits)

lemma chooseCode_Inl:
  "chooseCode e db req = Inl resp \<Longrightarrow> resp \<noteq> JSON StatusOK (Created r)"
  using gen_retry_Inl [of "rand_Int e" db 0 0 "[]" resp]
  by (auto simp: chooseCode_def split: if_splits option.splits)

lemma Create_fresh:
  "First db (Code link) = None \<Longrightarrow>
   Create db link = Inr (db\<lparr>rows := rows db @ [link\<lparr>ID := next_id db\<rparr>],
                            next_id := Suc (next_id db)\<rparr>)"
  by (simp add: Create_def First_None_iff list_ex_iff)

lemma handleCreate_success:
  assumes "TrimSpace e (URL req) = u" "u \<noteq> []" "isValidURL (ParseRequestURI e) u"
    "chooseCode e db req = Inr code"
  shows "handleCreate e t1 t2 db (Some req) =
     (JSON StatusOK (Created
        \<lparr>RespCode = code,
         ShortURL = TrimRight (if Getenv e DomainEnv = [] then DefaultDomain
                               else Getenv e DomainEnv) ''/'' @ ''/'' @ code,
         RespURL = u\<rparr>),
      db\<lparr>rows := rows db @ [\<lparr>ID = next_id db, Code = code, TargetURL = u, Clicks = 0,
                              CreatedAt = t1, ExpiredAt = expiry t2 (TTL req)\<rparr>],
         next_id := Suc (next_id db)\<rparr>)"
proof -
  from assms(4) have "First db code = None" by (simp add: chooseCode_Inr)
  then show ?thesis
    using assms by (simp add: handleCreate_def Let_def Create_fresh)
qed

lemma handleCreate_failure:
  assumes "TrimSpace e (URL req) = u" "u \<noteq> []" "isValidURL (ParseRequestURI e) u"
    "chooseCode e db req = Inl resp"
  shows "handleCreate e t1 t2 db (Some req) = (resp, db)"
  using assms by (simp add: handleCreate_def Let_def)

lemma handleCreate_cases:
  assumes "handleCreate e t1 t2 db body = (resp, db')"
  shows "(db' = db \<and> (\<forall>r. resp \<noteq> JSON StatusOK (Created r))) \<or>
         (\<exists>req code. body = Some req \<and> TrimSpace e (URL req) \<noteq> [] \<and>
            isValidURL (ParseRequestURI e) (TrimSpace e (URL req)) \<and>
            chooseCode e db req = Inr code)"
proof (cases body)
  case None
  with assms show ?thesis by (auto simp: handleCreate_def)
next
  case (Some req)
  show ?thesis
  proof (cases "TrimSpace e (URL req) \<noteq> [] \<and>
      isValidURL (ParseRequestURI e) (TrimSpace e (URL req))")
    case False
    with assms Some show ?thesis
      by (auto simp: handleCreate_def Let_def split: if_splits)
  next
    case True
    show ?thesis
    proof (cases "chooseCode e db req")
      case (Inl r')
      with True have "handleCreate e t1 t2 db (Some req) = (r', db)"
        by (simp add: handleCreate_failure)
      with assms Some Inl show ?thesis
        by (auto dest: chooseCode_Inl)
    next
      case (Inr code)
      with True Some show ?thesis by auto
    qed
  qed
qed

text \<open>
  Claim C1, amended. A create request with a valid URL and a custom code of the right
  characters and length is answered with 409 exactly when some stored link has that code,
  whether that link is active or expired; the table is then unchanged. When no stored
  link has the code, the request succeeds, answers with the custom code as it is and
  stores a link under it.
\<close>

theorem create_custom_conflict:
  assumes "TrimSpace e (URL req) = u" "u \<noteq> []" "isValidURL (ParseRequestURI e) u"
    and "Custom req \<noteq> []" "length (Custom req) \<le> 64" "isValidCode (Custom req)"
  shows "(fst (handleCreate e t1 t2 db (Some req)) = JSON StatusConflict (Error CustomExists) \<longleftrightarrow>
            (\<exists>r\<in>set (rows db). Code r = Custom req)) \<and>
         ((\<exists>r\<in>set (rows db). Code r = Custom req) \<longrightarrow>
            snd (handleCreate e t1 t2 db (Some req)) = db) \<and>
         ((\<forall>r\<in>set (rows db). Code r \<noteq> Custom req) \<longrightarrow>
            handleCreate e t1 t2 db (Some req) =
              (JSON StatusOK (Created
                 \<lparr>RespCode = Custom req,
                  ShortURL = TrimRight (if Getenv e DomainEnv = [] then DefaultDomain
                                        else Getenv e DomainEnv) ''/'' @ ''/'' @ Custom req,
                  RespURL = u\<rparr>),
               db\<lparr>rows := rows db @ [\<lparr>ID = next_id db, Code = Custom req, TargetURL = u,
                                       Clicks = 0, CreatedAt = t1,
                                       ExpiredAt = expiry t2 (TTL req)\<rparr>],
                  next_id := Suc (next_id db)\<rparr>))"
proof (cases "First db (Custom req)")
  case None
  then have no: "\<forall>r\<in>set (rows db). Code r \<noteq> Custom req"
    by (simp add: First_None_iff)
  from None assms(4-6) have "chooseCode e db req = Inr (Custom req)"
    by (simp add: chooseCode_def MaxCustomLength_def)
  from handleCreate_success [OF assms(1-3) this, of t1 t2] no show ?thesis
    by auto
next
  case (Some existing)
  then have ex: "\<exists>r\<in>set (rows db). Code r = Custom req"
    using First_Some by blast
  from Some assms(4-6)
  have "chooseCode e db req = Inl (JSON StatusConflict (Error CustomExists))"
    by (simp add: chooseCode_def MaxCustomLength_def)
  from handleCreate_failure [OF assms(1-3) this, of t1 t2] ex show ?thesis
    by auto
qed

lemma rows_db_abc: "rows db_abc = [\<lparr>ID = 1, Code = ''abc'', TargetURL = ''https://example.com'',
  Clicks = 0, CreatedAt = 0, ExpiredAt = \<lparr>Time = 1000000000, Valid = True\<rparr>\<rparr>]"
  by (simp add: db_abc_eq)

lemma valid_abc: "isValidCode ''abc''" "isValidCode ''xyz''" "isValidCode ''000000''"
  by (simp_all add: isValidCode_def MatchString_iff codeClass_def)

theorem create_custom_conflict_witness:
  "handleCreate sample_env 5 5 db_abc (Some req_abc) =
     (JSON StatusConflict (Error CustomExists), db_abc) \<and>
   fst (handleCreate sample_env 5 5 db_abc (Some (req_abc\<lparr>Custom := ''xyz''\<rparr>))) =
     JSON StatusOK (Created \<lparr>RespCode = ''xyz'', ShortURL = ''http://localhost:8080/xyz'',
       RespURL = ''https://example.com''\<rparr>)"
proof -
  have a: "TrimSpace sample_env (URL req_abc) = ''https://example.com''"
    "''https://example.com'' \<noteq> []"
    "isValidURL (ParseRequestURI sample_env) ''https://example.com''"
    "Custom req_abc \<noteq> []" "length (Custom req_abc) \<le> 64" "isValidCode (Custom req_abc)"
    by (simp_all add: req_abc_def sample_TrimSpace sample_valid valid_abc)
  have ex: "\<exists>r\<in>set (rows db_abc). Code r = Custom req_abc"
    by (simp add: rows_db_abc req_abc_def)
  note th = create_custom_conflict [OF a, of 5 5 db_abc]
  from th ex have 1: "fst (handleCreate sample_env 5 5 db_abc (Some req_abc)) =
      JSON StatusConflict (Error CustomExists)"
    and 2: "snd (handleCreate sample_env 5 5 db_abc (Some req_abc)) = db_abc"
    by blast+
  let ?r = "req_abc\<lparr>Custom := ''xyz''\<rparr>"
  have b: "TrimSpace sample_env (URL ?r) = ''https://example.com''"
    "''https://example.com'' \<noteq> []"
    "isValidURL (ParseRequestURI sample_env) ''https://example.com''"
    "Custom ?r \<noteq> []" "length (Custom ?r) \<le> 64" "isValidCode (Custom ?r)"
    by (simp_all add: req_abc_def sample_TrimSpace sample_valid valid_abc)
  have no: "\<forall>r\<in>set (rows db_abc). Code r \<noteq> Custom ?r"
    by (simp add: rows_db_abc)
  from create_custom_conflict [OF b, of 5 5 db_abc] no
  have "fst (handleCreate sample_env 5 5 db_abc (Some ?r)) =
      JSON StatusOK (Created \<lparr>RespCode = Custom ?r,
        ShortURL = TrimRight (if Getenv sample_env DomainEnv = [] then DefaultDomain
                                        else Getenv sample_env DomainEnv) ''/'' @ ''/'' @ Custom ?r,
        RespURL = ''https://example.com''\<rparr>)"
    by simp
  then have 3: "fst (handleCreate sample_env 5 5 db_abc (Some ?r)) =
     JSON StatusOK (Created \<lparr>RespCode = ''xyz'', ShortURL = ''http://localhost:8080/xyz'',
       RespURL = ''https://example.com''\<rparr>)"
    by (simp add: sample_env_def DefaultDomain_def TrimRight_def)
  from 1 2 have "handleCreate sample_env 5 5 db_abc (Some req_abc) =
     (JSON StatusConflict (Error CustomExists), db_abc)"
    by (simp add: prod_eq_iff)
  with 3 show ?thesis by (intro conjI)
qed

text \<open>
  The claim as the specification states it fails: the table holds one link, with the code
  abc, which is expired two seconds after its creation (a redirect answers 410), and a
  create request for the custom code abc is still answered with 409.
\<close>

theorem create_custom_expired_counterexample:
  "handleRedirect 2000000000 db_abc ''abc'' = (JSON StatusGone (Error LinkExpired), Inr db_abc) \<and>
   length (rows db_abc) = 1 \<and>
   handleCreate sample_env 2000000000 2000000000 db_abc (Some req_abc) =
     (JSON StatusConflict (Error CustomExists), db_abc)"
  by (simp add: db_abc_eq handleRedirect_def First_def expired_def
      req_abc_def handleCreate_def sample_TrimSpace sample_valid chooseCode_def
      MaxCustomLength_def valid_abc Let_def)

lemma TrimRight_decomp: "\<exists>n. s = TrimRight s ''/'' @ replicate n (CHR ''/'')"
proof -
  let ?P = "\<lambda>c. c \<in> set ''/''"
  have "rev s = takeWhile ?P (rev s) @ dropWhile ?P (rev s)" by simp
  then have "s = rev (dropWhile ?P (rev s)) @ rev (takeWhile ?P (rev s))"
    by (metis rev_append rev_rev_ident)
  moreover have "\<forall>c\<in>set (rev (takeWhile ?P (rev s))). c = CHR ''/''"
    by (auto dest: set_takeWhileD)
  then have "rev (takeWhile ?P (rev s)) =
      replicate (length (rev (takeWhile ?P (rev s)))) (CHR ''/'')"
    by (simp only: replicate_length_same)
  ultimately show ?thesis
    unfolding TrimRight_def by metis
qed

lemma TrimRight_last: "TrimRight s ''/'' = [] \<or> last (TrimRight s ''/'') \<noteq> CHR ''/''"
proof (cases "dropWhile (\<lambda>c. c \<in> set ''/'') (rev s)")
  case Nil
  then show ?thesis by (simp add: TrimRight_def)
next
  case (Cons x xs)
  then have "\<not> x \<in> set ''/''"
    using hd_dropWhile [of "\<lambda>c. c \<in> set ''/''" "rev s"] by simp
  with Cons show ?thesis by (simp add: TrimRight_def)
qed

lemma TrimRight_same: "s = [] \<or> last s \<noteq> CHR ''/'' \<Longrightarrow> TrimRight s ''/'' = s"
proof (cases "rev s")
  case Nil
  then show ?thesis by (simp add: TrimRight_def)
next
  case (Cons x xs)
  assume "s = [] \<or> last s \<noteq> CHR ''/''"
  moreover from Cons have "s \<noteq> []" "last s = x"
    by (auto simp: last_rev [symmetric] simp del: last_rev)
  ultimately have "x \<noteq> CHR ''/''" by simp
  then have "dropWhile (\<lambda>c. c \<in> set ''/'') (rev s) = rev s"
    using Cons by simp
  then show ?thesis by (simp add: TrimRight_def)
qed

text \<open>
  Claim C5, amended. On every successful create request, the short URL of the response is
  the configured domain (the default http://localhost:8080 when the variable SHORT_DOMAIN
  is empty) without its trailing slashes, followed by one slash and the code; the URL of
  the response is the submitted URL after strings.TrimSpace. For a domain that does not
  end in a slash this is the domain, a slash and the code.
\<close>

theorem create_response:
  assumes "handleCreate e t1 t2 db (Some req) = (JSON StatusOK (Created r), db')"
    and "domain = (if Getenv e ''SHORT_DOMAIN'' = [] then ''http://localhost:8080''
                else Getenv e ''SHORT_DOMAIN'')"
  shows "ShortURL r = TrimRight domain ''/'' @ ''/'' @ RespCode r \<and>
         RespURL r = TrimSpace e (URL req) \<and>
         (\<exists>n. domain = TrimRight domain ''/'' @ replicate n (CHR ''/'')) \<and>
         (TrimRight domain ''/'' = [] \<or> last (TrimRight domain ''/'') \<noteq> CHR ''/'') \<and>
         (last domain \<noteq> CHR ''/'' \<longrightarrow> ShortURL r = domain @ ''/'' @ RespCode r)"
proof -
  from handleCreate_cases [OF assms(1)]
  obtain code where u: "TrimSpace e (URL req) \<noteq> []"
      "isValidURL (ParseRequestURI e) (TrimSpace e (URL req))"
    and c: "chooseCode e db req = Inr code"
    by auto
  from handleCreate_success [OF refl u c, of t1 t2] assms
  have r: "r = \<lparr>RespCode = code, ShortURL = TrimRight domain ''/'' @ ''/'' @ code,
      RespURL = TrimSpace e (URL req)\<rparr>"
    by (simp add: DomainEnv_def DefaultDomain_def)
  have "last domain \<noteq> CHR ''/'' \<longrightarrow> TrimRight domain ''/'' = domain"
    by (simp add: TrimRight_same)
  with r TrimRight_decomp [of domain] TrimRight_last [of domain] show ?thesis
    by simp
qed

theorem create_response_witness:
  "handleCreate sample_env 0 0 empty_db (Some req_abc) =
     (JSON StatusOK (Created \<lparr>RespCode = ''abc'', ShortURL = ''http://localhost:8080/abc'',
        RespURL = ''https://example.com''\<rparr>), db_abc) \<and>
   TrimSpace sample_env (URL req_abc) = ''https://example.com''"
proof -
  have h: "handleCreate sample_env 0 0 empty_db (Some req_abc) =
     (JSON StatusOK (Created \<lparr>RespCode = ''abc'', ShortURL = ''http://localhost:8080/abc'',
        RespURL = ''https://example.com''\<rparr>), db_abc)"
    by (simp add: db_abc_eq req_abc_def handleCreate_def sample_TrimSpace sample_valid
        chooseCode_def MaxCustomLength_def valid_abc First_def Create_def empty_db_def expiry_1
        Let_def sample_env_def [THEN arg_cong, of Getenv] DefaultDomain_def TrimRight_def)
  have d: "''http://localhost:8080'' =
      (if Getenv sample_env ''SHORT_DOMAIN'' = [] then ''http://localhost:8080''
       else Getenv sample_env ''SHORT_DOMAIN'')"
    by (simp add: sample_env_def)
  from create_response [OF h d]
  have "RespURL \<lparr>RespCode = ''abc'', ShortURL = ''http://localhost:8080/abc'',
        RespURL = ''https://example.com''\<rparr> = TrimSpace sample_env (URL req_abc)"
    by blast
  with h show ?thesis by simp
qed

text \<open>
  The claim as the specification states it fails for a domain configured with a trailing
  slash: the short URL has one slash before the code, not two.
\<close>

theorem create_short_url_counterexample:
  "Getenv slash_env ''SHORT_DOMAIN'' = ''https://s.example.com/'' \<and>
   fst (handleCreate slash_env 0 0 empty_db (Some req_abc)) =
     JSON StatusOK (Created \<lparr>RespCode = ''abc'', ShortURL = ''https://s.example.com/abc'',
        RespURL = ''https://example.com''\<rparr>) \<and>
   ''https://s.example.com/abc'' \<noteq> ''https://s.example.com/'' @ ''/'' @ ''abc''"
proof -
  have t: "TrimSpace slash_env '' https://example.com '' = ''https://example.com''"
    "ParseRequestURI slash_env = ParseRequestURI sample_env"
    "Getenv slash_env ''SHORT_DOMAIN'' = ''https://s.example.com/''"
    by (simp_all add: slash_env_def sample_TrimSpace DomainEnv_def)
  show ?thesis
    by (simp add: t req_abc_def handleCreate_def sample_valid
        chooseCode_def MaxCustomLength_def valid_abc First_def Create_def empty_db_def expiry_1
        Let_def DomainEnv_def TrimRight_def)
qed






lemma handleCreate_generated:
  assumes "TrimSpace e (URL req) = u" "u \<noteq> []" "isValidURL (ParseRequestURI e) u"
    and "Custom req = []"
    and "\<forall>m<30. \<exists>v<62. rand_Int e m = Inr v"
  shows "handleCreate e t1 t2 db (Some req) =
     (case find (\<lambda>c. \<forall>r\<in>set (rows db). Code r \<noteq> c)
             (map (\<lambda>j. drawn (rand_Int e) (6 * j) 6) [0..<5]) of
        None \<Rightarrow> (JSON StatusInternalServerError (Error GenCodeConflict), db)
      | Some c \<Rightarrow>
          (JSON StatusOK (Created
             \<lparr>RespCode = c,
              ShortURL = TrimRight (if Getenv e DomainEnv = [] then DefaultDomain
                                    else Getenv e DomainEnv) ''/'' @ ''/'' @ c,
              RespURL = u\<rparr>),
           db\<lparr>rows := rows db @ [\<lparr>ID = next_id db, Code = c, TargetURL = u, Clicks = 0,
                                   CreatedAt = t1, ExpiredAt = expiry t2 (TTL req)\<rparr>],
              next_id := Suc (next_id db)\<rparr>))"
proof -
  let ?codes = "map (\<lambda>j. drawn (rand_Int e) (6 * j) 6) [0..<5]"
  have p: "(\<lambda>c. First db c = None) = (\<lambda>c. \<forall>r\<in>set (rows db). Code r \<noteq> c)"
    by (simp add: First_None_iff fun_eq_iff)
  have "chooseCode e db req = gen_retry (rand_Int e) db 0 (6 * 0) []"
    using assms(4) by (simp add: chooseCode_def)
  also have "\<dots> = (case find (\<lambda>c. First db c = None) ?codes of
        None \<Rightarrow> Inl (JSON StatusInternalServerError (Error GenCodeConflict))
      | Some c' \<Rightarrow> Inr c')"
    using assms(5) by (rule gen_retry_find) simp
  finally have c: "chooseCode e db req =
      (case find (\<lambda>c. \<forall>r\<in>set (rows db). Code r \<noteq> c) ?codes of
        None \<Rightarrow> Inl (JSON StatusInternalServerError (Error GenCodeConflict))
      | Some c' \<Rightarrow> Inr c')"
    unfolding p .
  show ?thesis
  proof (cases "find (\<lambda>c. \<forall>r\<in>set (rows db). Code r \<noteq> c) ?codes")
    case None
    with c have "chooseCode e db req =
        Inl (JSON StatusInternalServerError (Error GenCodeConflict))"
      by simp
    from handleCreate_failure [OF assms(1-3) this, of t1 t2] None show ?thesis
      by simp
  next
    case (Some code)
    with c have "chooseCode e db req = Inr code" by simp
    from handleCreate_success [OF assms(1-3) this, of t1 t2] Some show ?thesis
      by simp
  qed
qed

lemma drawn_cong: "\<forall>i<n. f (k + i) = g (k + i) \<Longrightarrow> drawn f k n = drawn g k n"
  by (simp add: drawn_def)

text \<open>
  Claim C2, amended. For a create request with a valid URL and no custom code, served
  while the calls of rand.Int succeed, the handler looks at the five codes that the
  first five runs of genRandomCode spell, each of six characters, and at no further draw.
  It takes the first of them that no stored link has, whether active or expired: the
  answer is 200 with that code and the link is stored under it. When a stored link has
  each of the five codes, the answer is 500 with the message of the generation conflict
  and the table is unchanged; no longer code and no other alphabet is tried.
\<close>

theorem create_generated_code:
  assumes "TrimSpace e (URL req) = u" "u \<noteq> []" "isValidURL (ParseRequestURI e) u"
    and "Custom req = []"
    and "\<forall>m<30. \<exists>v<62. rand_Int e m = Inr v"
    and "codes = map (\<lambda>j. drawn (rand_Int e) (6 * j) 6) [0..<5]"
  shows "length codes = 5 \<and>
     (\<forall>j<5. genRandomCode (rand_Int e) (6 * j) DefaultCodeLen = (Inr (codes ! j), 6 * j + 6) \<and>
        length (codes ! j) = 6) \<and>
     handleCreate e t1 t2 db (Some req) =
       (case find (\<lambda>c. \<forall>r\<in>set (rows db). Code r \<noteq> c) codes of
          None \<Rightarrow> (JSON StatusInternalServerError (Error GenCodeConflict), db)
        | Some c \<Rightarrow>
            (JSON StatusOK (Created
               \<lparr>RespCode = c,
                ShortURL = TrimRight (if Getenv e DomainEnv = [] then DefaultDomain
                                      else Getenv e DomainEnv) ''/'' @ ''/'' @ c,
                RespURL = u\<rparr>),
             db\<lparr>rows := rows db @ [\<lparr>ID = next_id db, Code = c, TargetURL = u, Clicks = 0,
                                     CreatedAt = t1, ExpiredAt = expiry t2 (TTL req)\<rparr>],
                next_id := Suc (next_id db)\<rparr>)) \<and>
     (\<forall>rnd'. (\<forall>m<30. rnd' m = rand_Int e m) \<longrightarrow>
        handleCreate (e\<lparr>rand_Int := rnd'\<rparr>) t1 t2 db (Some req) =
        handleCreate e t1 t2 db (Some req))"
proof (intro conjI allI impI)
  show "length codes = 5" by (simp add: assms(6))
next
  fix j :: nat assume j: "j < 5"
  then have "\<forall>i<codeLen DefaultCodeLen. \<exists>v<62. rand_Int e (6 * j + i) = Inr v"
    using assms(5) by (simp add: codeLen_Default)
  from genRandomCode_ok [OF this] j
  show "genRandomCode (rand_Int e) (6 * j) DefaultCodeLen = (Inr (codes ! j), 6 * j + 6)"
    by (simp add: assms(6) codeLen_Default del: upt_Suc)
  from j show "length (codes ! j) = 6"
    by (simp add: assms(6) length_drawn del: upt_Suc)
next
  show "handleCreate e t1 t2 db (Some req) =
       (case find (\<lambda>c. \<forall>r\<in>set (rows db). Code r \<noteq> c) codes of
          None \<Rightarrow> (JSON StatusInternalServerError (Error GenCodeConflict), db)
        | Some c \<Rightarrow>
            (JSON StatusOK (Created
               \<lparr>RespCode = c,
                ShortURL = TrimRight (if Getenv e DomainEnv = [] then DefaultDomain
                                      else Getenv e DomainEnv) ''/'' @ ''/'' @ c,
                RespURL = u\<rparr>),
             db\<lparr>rows := rows db @ [\<lparr>ID = next_id db, Code = c, TargetURL = u, Clicks = 0,
                                     CreatedAt = t1, ExpiredAt = expiry t2 (TTL req)\<rparr>],
                next_id := Suc (next_id db)\<rparr>))"
    unfolding assms(6) using assms(1-5) by (rule handleCreate_generated)
next
  fix rnd' assume same: "\<forall>m<30. rnd' m = rand_Int e m"
  let ?e = "e\<lparr>rand_Int := rnd'\<rparr>"
  have ok': "\<forall>m<30. \<exists>v<62. rand_Int ?e m = Inr v"
    using assms(5) same by simp
  have "drawn rnd' (6 * j) 6 = drawn (rand_Int e) (6 * j) 6" if "j < 5" for j
    using that same by (intro drawn_cong) simp
  then have codes': "map (\<lambda>j. drawn (rand_Int ?e) (6 * j) 6) [0..<5] =
      map (\<lambda>j. drawn (rand_Int e) (6 * j) 6) [0..<5]"
    by (simp del: upt_Suc)
  have a': "TrimSpace ?e (URL req) = u" "isValidURL (ParseRequestURI ?e) u"
    using assms(1,3) by simp_all
  show "handleCreate ?e t1 t2 db (Some req) = handleCreate e t1 t2 db (Some req)"
    unfolding handleCreate_generated [OF a'(1) assms(2) a'(2) assms(4) ok', of t1 t2 db]
      handleCreate_generated [OF assms(1-5), of t1 t2 db] codes'
    by (simp split: option.splits)
qed

lemma db_zeros_eq:
  "db_zeros = \<lparr>rows = [\<lparr>ID = 1, Code = ''000000'', TargetURL = ''https://example.com'',
       Clicks = 0, CreatedAt = 0, ExpiredAt = \<lparr>Time = 1000000000, Valid = True\<rparr>\<rparr>],
     next_id = 2\<rparr>"
  by (simp add: db_zeros_def handleCreate_def sample_TrimSpace sample_valid chooseCode_def
      MaxCustomLength_def valid_abc First_def Create_def empty_db_def expiry_1 Let_def)

lemma zero_env_simps:
  "TrimSpace zero_env ''https://example.com'' = ''https://example.com''"
  "ParseRequestURI zero_env = ParseRequestURI sample_env"
  "Getenv zero_env = Getenv sample_env"
  "rand_Int zero_env = (\<lambda>k. Inr 0)"
  by (simp_all add: zero_env_def sample_TrimSpace)

lemma sample_codes:
  "map (\<lambda>j. drawn (rand_Int sample_env) (6 * j) 6) [0..<5] =
     [''012345'', ''6789ab'', ''cdefgh'', ''ijklmn'', ''opqrst'']"
  by (simp add: sample_env_def drawn_def alphabet_def upt_rec)

lemma zero_codes:
  "map (\<lambda>j. drawn (rand_Int zero_env) (6 * j) 6) [0..<5] =
     [''000000'', ''000000'', ''000000'', ''000000'', ''000000'']"
  by (simp add: zero_env_simps drawn_def alphabet_def upt_rec)

theorem create_generated_code_witness:
  "handleCreate sample_env 7 7
     \<lparr>rows = [\<lparr>ID = 1, Code = ''012345'', TargetURL = ''http://example.com'', Clicks = 0,
        CreatedAt = 0, ExpiredAt = zeroNullTime\<rparr>], next_id = 2\<rparr>
     (Some \<lparr>URL = ''https://example.com'', Custom = [], TTL = 0\<rparr>) =
     (JSON StatusOK (Created \<lparr>RespCode = ''6789ab'', ShortURL = ''http://localhost:8080/6789ab'',
        RespURL = ''https://example.com''\<rparr>),
      \<lparr>rows = [\<lparr>ID = 1, Code = ''012345'', TargetURL = ''http://example.com'', Clicks = 0,
          CreatedAt = 0, ExpiredAt = zeroNullTime\<rparr>,
        \<lparr>ID = 2, Code = ''6789ab'', TargetURL = ''https://example.com'', Clicks = 0,
          CreatedAt = 7, ExpiredAt = zeroNullTime\<rparr>], next_id = 3\<rparr>) \<and>
   handleCreate zero_env 7 7 db_zeros (Some \<lparr>URL = ''https://example.com'', Custom = [], TTL = 0\<rparr>) =
     (JSON StatusInternalServerError (Error GenCodeConflict), db_zeros)"
proof -
  let ?req = "\<lparr>URL = ''https://example.com'', Custom = [], TTL = 0\<rparr>"
  let ?db = "\<lparr>rows = [\<lparr>ID = 1, Code = ''012345'', TargetURL = ''http://example.com'', Clicks = 0,
        CreatedAt = 0, ExpiredAt = zeroNullTime\<rparr>], next_id = 2\<rparr>"
  have a: "TrimSpace sample_env (URL ?req) = ''https://example.com''"
    "''https://example.com'' \<noteq> []"
    "isValidURL (ParseRequestURI sample_env) ''https://example.com''"
    "Custom ?req = []"
    "\<forall>m<30. \<exists>v<62. rand_Int sample_env m = Inr v"
    by (simp_all add: sample_TrimSpace sample_valid) (simp add: sample_env_def)
  have b: "TrimSpace zero_env (URL ?req) = ''https://example.com''"
    "''https://example.com'' \<noteq> []"
    "isValidURL (ParseRequestURI zero_env) ''https://example.com''"
    "Custom ?req = []"
    "\<forall>m<30. \<exists>v<62. rand_Int zero_env m = Inr v"
    by (simp_all add: zero_env_simps sample_valid)
  from create_generated_code [OF a sample_codes [symmetric], of 7 7 ?db]
  have 1: "handleCreate sample_env 7 7 ?db (Some ?req) =
     (JSON StatusOK (Created \<lparr>RespCode = ''6789ab'', ShortURL = ''http://localhost:8080/6789ab'',
        RespURL = ''https://example.com''\<rparr>),
      \<lparr>rows = [\<lparr>ID = 1, Code = ''012345'', TargetURL = ''http://example.com'', Clicks = 0,
          CreatedAt = 0, ExpiredAt = zeroNullTime\<rparr>,
        \<lparr>ID = 2, Code = ''6789ab'', TargetURL = ''https://example.com'', Clicks = 0,
          CreatedAt = 7, ExpiredAt = zeroNullTime\<rparr>], next_id = 3\<rparr>)"
    by (simp add: sample_env_def [THEN arg_cong, of Getenv] DefaultDomain_def TrimRight_def
        expiry_def)
  from create_generated_code [OF b zero_codes [symmetric], of 7 7 db_zeros]
  have 2: "handleCreate zero_env 7 7 db_zeros (Some ?req) =
     (JSON StatusInternalServerError (Error GenCodeConflict), db_zeros)"
    by (simp add: db_zeros_eq)
  from 1 2 show ?thesis by (intro conjI)
qed

text \<open>
  The claim as the specification states it fails: every attempt spells the code 000000,
  the only stored link has that code and is expired (a redirect answers 410), so there is
  no active link with the attempted code, and still the attempt is not accepted: the
  request ends in the generation conflict.
\<close>

theorem create_generated_expired_counterexample:
  "fst (genRandomCode (rand_Int zero_env) 0 DefaultCodeLen) = Inr ''000000'' \<and>
   length (rows db_zeros) = 1 \<and>
   handleRedirect 2000000000 db_zeros ''000000'' =
     (JSON StatusGone (Error LinkExpired), Inr db_zeros) \<and>
   handleCreate zero_env 2000000000 2000000000 db_zeros
     (Some \<lparr>URL = ''https://example.com'', Custom = [], TTL = 0\<rparr>) =
     (JSON StatusInternalServerError (Error GenCodeConflict), db_zeros)"
proof -
  let ?req = "\<lparr>URL = ''https://example.com'', Custom = [], TTL = 0\<rparr>"
  have ok: "\<forall>m<30. \<exists>v<62. rand_Int zero_env m = Inr v"
    by (simp add: zero_env_simps)
  have "\<forall>j<codeLen DefaultCodeLen. \<exists>v<62. rand_Int zero_env (0 + j) = Inr v"
    by (simp add: zero_env_simps)
  from genRandomCode_ok [OF this]
  have 1: "fst (genRandomCode (rand_Int zero_env) 0 DefaultCodeLen) = Inr ''000000''"
    by (simp add: codeLen_Default zero_env_simps drawn_def alphabet_def upt_rec)
  have 2: "length (rows db_zeros) = 1"
    by (simp add: db_zeros_eq)
  have 3: "handleRedirect 2000000000 db_zeros ''000000'' =
      (JSON StatusGone (Error LinkExpired), Inr db_zeros)"
    by (simp add: db_zeros_eq handleRedirect_def First_def expired_def)
  have "handleCreate zero_env 2000000000 2000000000 db_zeros (Some ?req) =
     (case find (\<lambda>c. \<forall>r\<in>set (rows db_zeros). Code r \<noteq> c)
             (map (\<lambda>j. drawn (rand_Int zero_env) (6 * j) 6) [0..<5]) of
        None \<Rightarrow> (JSON StatusInternalServerError (Error GenCodeConflict), db_zeros)
      | Some c \<Rightarrow>
          (JSON StatusOK (Created
             \<lparr>RespCode = c,
              ShortURL = TrimRight (if Getenv zero_env DomainEnv = [] then DefaultDomain
                                    else Getenv zero_env DomainEnv) ''/'' @ ''/'' @ c,
              RespURL = ''https://example.com''\<rparr>),
           db_zeros\<lparr>rows := rows db_zeros @ [\<lparr>ID = next_id db_zeros, Code = c,
                 TargetURL = ''https://example.com'', Clicks = 0,
                 CreatedAt = 2000000000, ExpiredAt = expiry 2000000000 (TTL ?req)\<rparr>],
              next_id := Suc (next_id db_zeros)\<rparr>))"
    by (rule handleCreate_generated) (simp_all add: zero_env_simps sample_valid)
  then have 4: "handleCreate zero_env 2000000000 2000000000 db_zeros (Some ?req) =
     (JSON StatusInternalServerError (Error GenCodeConflict), db_zeros)"
    unfolding zero_codes by (simp add: db_zeros_eq)
  from 1 2 3 4 show ?thesis by (intro conjI)
qed

subsection \<open>The clicks counter\<close>

lemma handleCreate_rows:
  assumes "handleCreate e t1 t2 db body = (resp, db')"
  shows "db' = db \<or> (\<exists>link. rows db' = rows db @ [link] \<and> Clicks link = 0 \<and>
           db' = db\<lparr>rows := rows db @ [link], next_id := Suc (next_id db)\<rparr> \<and>
           ID link = next_id db \<and> (\<forall>r\<in>set (rows db). Code r \<noteq> Code link))"
proof -
  from handleCreate_cases [OF assms] show ?thesis
  proof
    assume "db' = db \<and> (\<forall>r. resp \<noteq> JSON StatusOK (Created r))"
    then show ?thesis by simp
  next
    assume "\<exists>req code. body = Some req \<and> TrimSpace e (URL req) \<noteq> [] \<and>
        isValidURL (ParseRequestURI e) (TrimSpace e (URL req)) \<and> chooseCode e db req = Inr code"
    then obtain req code where b: "body = Some req"
      and u: "TrimSpace e (URL req) \<noteq> []" "isValidURL (ParseRequestURI e) (TrimSpace e (URL req))"
      and c: "chooseCode e db req = Inr code"
      by blast
    from c have "\<forall>r\<in>set (rows db). Code r \<noteq> code"
      using chooseCode_Inr [of e db req code] by (simp add: First_None_iff)
    with handleCreate_success [OF refl u c, of t1 t2] assms b show ?thesis
      by auto
  qed
qed

lemma wf_handleCreate:
  assumes "wf_db db"
  shows "wf_db (snd (handleCreate e t1 t2 db body))"
proof -
  obtain resp db' where h: "handleCreate e t1 t2 db body = (resp, db')"
    by (cases "handleCreate e t1 t2 db body")
  from handleCreate_rows [OF h] show ?thesis
  proof
    assume "db' = db"
    with h assms show ?thesis by simp
  next
    assume "\<exists>link. rows db' = rows db @ [link] \<and> Clicks link = 0 \<and>
           db' = db\<lparr>rows := rows db @ [link], next_id := Suc (next_id db)\<rparr> \<and>
           ID link = next_id db \<and> (\<forall>r\<in>set (rows db). Code r \<noteq> Code link)"
    then obtain link where "db' = db\<lparr>rows := rows db @ [link], next_id := Suc (next_id db)\<rparr>"
      "ID link = next_id db" "\<forall>r\<in>set (rows db). Code r \<noteq> Code link"
      by blast
    then have "Create db link = Inr db'"
      by (simp add: Create_def list_ex_iff)
    with assms have "wf_db db'" by (rule wf_Create)
    with h show ?thesis by simp
  qed
qed

lemma wf_handleRedirect:
  "wf_db db \<Longrightarrow> snd (handleRedirect now db code) = Inr db' \<Longrightarrow> wf_db db'"
  by (auto simp: handleRedirect_def split: option.splits if_splits
      intro: wf_UpdateColumn_clicks)

lemma wf_handleInfo: "wf_db db \<Longrightarrow> wf_db (snd (handleInfo db code))"
  by (simp add: handleInfo_def split: option.splits)

lemma wf_handleDelete: "wf_db db \<Longrightarrow> wf_db (snd (handleDelete db code))"
  using wf_Delete [of db code] by (auto simp: handleDelete_def split: prod.splits)



text \<open>
  The integrity of the table is an invariant of the service: it holds of the empty table
  and every handler keeps it.
\<close>

theorem wf_db_invariant:
  "wf_db empty_db \<and>
   (wf_db db \<longrightarrow>
      wf_db (snd (handleCreate e t1 t2 db body)) \<and>
      (\<forall>db'. snd (handleRedirect now db code) = Inr db' \<longrightarrow> wf_db db') \<and>
      wf_db (snd (handleInfo db code)) \<and>
      wf_db (snd (handleDelete db code)))"
  using wf_empty_db wf_handleCreate wf_handleRedirect wf_handleInfo wf_handleDelete
  by blast

theorem wf_db_invariant_witness:
  "wf_db empty_db \<and> wf_db db_abc \<and>
   snd (handleRedirect 5 db_abc ''abc'') =
     Inr \<lparr>rows = [\<lparr>ID = 1, Code = ''abc'', TargetURL = ''https://example.com'', Clicks = 1,
         CreatedAt = 0, ExpiredAt = \<lparr>Time = 1000000000, Valid = True\<rparr>\<rparr>], next_id = 2\<rparr> \<and>
   wf_db \<lparr>rows = [\<lparr>ID = 1, Code = ''abc'', TargetURL = ''https://example.com'', Clicks = 1,
         CreatedAt = 0, ExpiredAt = \<lparr>Time = 1000000000, Valid = True\<rparr>\<rparr>], next_id = 2\<rparr>"
proof -
  let ?db' = "\<lparr>rows = [\<lparr>ID = 1, Code = ''abc'', TargetURL = ''https://example.com'', Clicks = 1,
         CreatedAt = 0, ExpiredAt = \<lparr>Time = 1000000000, Valid = True\<rparr>\<rparr>], next_id = 2\<rparr>"
  from wf_db_invariant [of empty_db sample_env 0 0 "Some req_abc"]
  have 0: "wf_db empty_db" and 1: "wf_db db_abc"
    by (simp_all add: db_abc_def)
  have 2: "snd (handleRedirect 5 db_abc ''abc'') = Inr ?db'"
    by (simp add: db_abc_eq handleRedirect_def First_def expired_def UpdateColumn_clicks_def
        MaxInt64_def)
  from wf_db_invariant [of db_abc _ _ _ _ 5 "''abc''"] 1 2
  have "wf_db ?db'"
    by blast
  with 0 1 2 show ?thesis by (intro conjI)
qed




end
